theory Spec2Isabelle
  imports Main
begin

section \<open>Errors and observable events\<close>

text \<open>
  What datasource resolution can hand back: a string, or (see \<open>readArgumentWithEnv\<close>) the
  property of the given name that \<^verbatim>\<open>process.env\<close> inherits from its prototype, which is a
  function or an object and no string.
\<close>

datatype resolved = Text string | Inherited string

text \<open>
  Every \<^verbatim>\<open>throw\<close> of the sources is a constructor of \<open>error\<close>, named after the
  message it carries. \<open>External\<close> stands for a failure raised by a collaborator whose code is
  outside the sources (database client, migration engine, script runner, file system, schema
  parser); such failures pass through the functions below unchanged.
\<close>

datatype error =
    ExpectedStringLiteral
      \<comment> \<open>"Expected a string literal for provider or url."\<close>
  | EnvArgCount
      \<comment> \<open>"env() function must have exactly one argument."\<close>
  | EnvNotSet string
      \<comment> \<open>"Environment variable <name> is not set."\<close>
  | UnsupportedExpression
      \<comment> \<open>"Only string literals and env() function calls are supported for provider and url."\<close>
  | NoDatasource
      \<comment> \<open>the TypeError of reading \<^verbatim>\<open>.members\<close> of \<^verbatim>\<open>undefined\<close>\<close>
  | MissingProvider
      \<comment> \<open>"Datasource declaration must include a 'provider' configuration."\<close>
  | UnsupportedProvider resolved
      \<comment> \<open>"Unsupported datasource provider: <provider>. ..."\<close>
  | GeneratorBlockCount
      \<comment> \<open>"The schema must contain exactly one generator block for prisma-client-js or prisma-client."\<close>
  | GeneratorNoMembers
      \<comment> \<open>"The generator block must have a members array."\<close>
  | InvalidMigrationName string
      \<comment> \<open>the rejection of a target name by the validator, whose code is not in the sources\<close>
  | External string

section \<open>The schema syntax tree\<close>

text \<open>
  The part of the parser library's tree that the sources inspect. A literal holds a string, a
  number or a boolean; \<open>FunctionCall\<close> holds the segments of its path and its optional
  argument list.
\<close>

datatype scalar = StrV string | NumV int | BoolV bool

datatype SchemaArgument =
    Literal scalar
  | Path "string list"
  | Array "SchemaArgument list"
  | FunctionCall "string list" "SchemaArgument list option"
  | NamedArgument string SchemaArgument

datatype member =
    Config string SchemaArgument
  | CommentBlock "string list"

datatype SchemaDeclaration =
    Generator string "member list"
  | Datasource string "member list"
  | OtherDeclaration string

type_synonym PrismaSchema = "SchemaDeclaration list"

section \<open>Datasource resolution\<close>

text \<open>\<^verbatim>\<open>Array.prototype.join(".")\<close> on the segments of a path.\<close>

fun join_dot :: "string list \<Rightarrow> string" where
  "join_dot [] = []"
| "join_dot [x] = x"
| "join_dot (x # y # ys) = x @ ''.'' @ join_dot (y # ys)"

text \<open>
  \<^verbatim>\<open>process.env[envName]\<close> is a property read. It finds the environment variable of that
  name, a string, when there is one (the map \<open>env\<close>); otherwise it goes on to the properties
  that the object inherits from its prototype (\<^verbatim>\<open>constructor\<close>, \<^verbatim>\<open>toString\<close>, ...: the
  names for which \<open>inherited\<close> holds) and is \<^verbatim>\<open>undefined\<close> only when the name is none of
  these.
\<close>

definition env_read :: "(string \<Rightarrow> bool) \<Rightarrow> (string \<rightharpoonup> string) \<Rightarrow> string \<Rightarrow> resolved option" where
  "env_read inherited env envName =
     (case env envName of
        Some v \<Rightarrow> Some (Text v)
      | None \<Rightarrow> if inherited envName then Some (Inherited envName) else None)"

text \<open>
  \<^verbatim>\<open>readArgumentWithEnv\<close>. The parser library's \<^verbatim>\<open>readStringArgument\<close> is the
  parameter \<open>rsa\<close>. The test \<^verbatim>\<open>!envValue\<close> holds for \<^verbatim>\<open>undefined\<close> and for the empty
  string, and for no inherited property.
\<close>

fun readArgumentWithEnv ::
  "(SchemaArgument \<Rightarrow> error + string) \<Rightarrow> (string \<Rightarrow> bool) \<Rightarrow> (string \<rightharpoonup> string) \<Rightarrow>
   SchemaArgument \<Rightarrow> error + resolved"
where
  "readArgumentWithEnv rsa inherited env (Literal v) =
     (case v of StrV s \<Rightarrow> Inr (Text s) | _ \<Rightarrow> Inl ExpectedStringLiteral)"
| "readArgumentWithEnv rsa inherited env (FunctionCall p args) =
     (if join_dot p = ''env'' then
        (case args of
           None \<Rightarrow> Inl EnvArgCount
         | Some as \<Rightarrow>
             if length as \<noteq> 1 then Inl EnvArgCount
             else (case rsa (hd as) of
                     Inl e \<Rightarrow> Inl e
                   | Inr envName \<Rightarrow>
                       (case env_read inherited env envName of
                          None \<Rightarrow> Inl (EnvNotSet envName)
                        | Some envValue \<Rightarrow>
                            if envValue = Text [] then Inl (EnvNotSet envName)
                            else Inr envValue)))
      else Inl UnsupportedExpression)"
| "readArgumentWithEnv rsa inherited env _ = Inl UnsupportedExpression"

text \<open>The library's \<^verbatim>\<open>readStringArgument\<close>: the string of a string literal, an error otherwise.\<close>

fun readStringArgument :: "SchemaArgument \<Rightarrow> error + string" where
  "readStringArgument (Literal (StrV s)) = Inr s"
| "readStringArgument _ = Inl (External ''string literal expected'')"


text \<open>
  \<^verbatim>\<open>readDataSourceConfig\<close>, from the parsed schema on (reading and parsing the file are the
  parser's and the file system's work). \<open>isSupported\<close> is \<^verbatim>\<open>isSupportedDatasourceProvider\<close>,
  \<open>fallback\<close> the outcome of \<^verbatim>\<open>readDatabaseUrlFromPrismaConfig()\<close>, which is awaited only
  when the datasource has no \<^verbatim>\<open>url\<close> member.
\<close>

record DataSourceConfig =
  provider :: resolved
  url :: resolved


fun isConfigNamed :: "string \<Rightarrow> member \<Rightarrow> bool" where
  "isConfigNamed k (Config n v) = (n = k)"
| "isConfigNamed k (CommentBlock c) = False"

fun configValue :: "member \<Rightarrow> SchemaArgument" where
  "configValue (Config n v) = v"
| "configValue (CommentBlock c) = Literal (StrV [])"

fun declMembers :: "SchemaDeclaration \<Rightarrow> member list" where
  "declMembers (Generator n ms) = ms"
| "declMembers (Datasource n ms) = ms"
| "declMembers (OtherDeclaration c) = []"


section \<open>Temp schema generation: the generator block\<close>

text \<open>\<^verbatim>\<open>isClientGenerator\<close>: a generator block with a literal provider of the client kind.\<close>

fun isClientProvider :: "member \<Rightarrow> bool" where
  "isClientProvider (Config n (Literal v)) =
     (n = ''provider'' \<and> (v = StrV ''prisma-client-js'' \<or> v = StrV ''prisma-client''))"
| "isClientProvider _ = False"

fun isClientGenerator :: "SchemaDeclaration \<Rightarrow> bool" where
  "isClientGenerator (Generator n ms) = list_ex isClientProvider ms"
| "isClientGenerator _ = False"

text \<open>
  The source mutates, inside its private copy of the tree, the object that
  \<^verbatim>\<open>clientGenerators[0]\<close> (or \<^verbatim>\<open>members.find\<close>) refers to: the first element that satisfies the
  predicate, at the place where it stands.
\<close>

fun update_first :: "('a \<Rightarrow> bool) \<Rightarrow> ('a \<Rightarrow> 'a) \<Rightarrow> 'a list \<Rightarrow> 'a list" where
  "update_first p f [] = []"
| "update_first p f (x # xs) = (if p x then f x # xs else x # update_first p f xs)"

fun setConfigValue :: "SchemaArgument \<Rightarrow> member \<Rightarrow> member" where
  "setConfigValue v (Config n old) = Config n v"
| "setConfigValue v (CommentBlock c) = CommentBlock c"

definition setOutput :: "string \<Rightarrow> member list \<Rightarrow> member list" where
  "setOutput clientOutputPath members =
     (case find (isConfigNamed ''output'') members of
        None \<Rightarrow> members @ [Config ''output'' (Literal (StrV clientOutputPath))]
      | Some generatorOutputAttribute \<Rightarrow>
          update_first (isConfigNamed ''output'')
            (setConfigValue (Literal (StrV clientOutputPath))) members)"

fun setGeneratorOutput :: "string \<Rightarrow> SchemaDeclaration \<Rightarrow> SchemaDeclaration" where
  "setGeneratorOutput clientOutputPath (Generator n ms) = Generator n (setOutput clientOutputPath ms)"
| "setGeneratorOutput clientOutputPath d = d"

fun hasMembers :: "SchemaDeclaration \<Rightarrow> bool" where
  "hasMembers (Generator n ms) = True"
| "hasMembers (Datasource n ms) = True"
| "hasMembers (OtherDeclaration c) = False"

definition updateGenerator :: "PrismaSchema \<Rightarrow> string \<Rightarrow> error + PrismaSchema" where
  "updateGenerator ast clientOutputPath =
     (let clientGenerators = filter isClientGenerator ast
      in if length clientGenerators \<noteq> 1 then Inl GeneratorBlockCount
         else if \<not> hasMembers (hd clientGenerators) then Inl GeneratorNoMembers
         else Inr (update_first isClientGenerator (setGeneratorOutput clientOutputPath) ast))"

text \<open>The first \<^verbatim>\<open>output\<close> member of a block, as \<^verbatim>\<open>members.find\<close> reads it.\<close>

definition outputOf :: "SchemaDeclaration \<Rightarrow> SchemaArgument option" where
  "outputOf d = map_option configValue (find (isConfigNamed ''output'') (declMembers d))"


section \<open>Calls to collaborators\<close>

text \<open>
  The orchestrator's collaborators act on a world \<open>'w\<close> of their own (database, engine, file
  system). A call may throw and may change the world even when it throws. Each call is written
  to a trace at the moment it is made, so the trace of a run lists the calls in order, the last
  one being the call that threw when the run failed.
\<close>

datatype event =
    EvConnect
  | EvIsPrismaMigrationsTableExists
  | EvGetMigrationByName string
  | EvMigrateTo string
  | EvRunPostScript string
  | EvDisconnect
  | EvLogInfo string
  | EvReadFile string
  | EvMkdir string
  | EvWriteFile string string
  | EvPrismaGenerate string
  | EvRmSync string

type_synonym ('w, 'a) action = "'w \<times> event list \<Rightarrow> (error + 'a) \<times> 'w \<times> event list"

definition result :: "'a \<Rightarrow> ('w, 'a) action" where
  "result a = (\<lambda>s. (Inr a, s))"

definition raise :: "error \<Rightarrow> ('w, 'a) action" where
  "raise e = (\<lambda>s. (Inl e, s))"

definition lift :: "error + 'a \<Rightarrow> ('w, 'a) action" where
  "lift r = (\<lambda>s. (r, s))"

definition call :: "event \<Rightarrow> ('w \<Rightarrow> (error + 'a) \<times> 'w) \<Rightarrow> ('w, 'a) action" where
  "call ev f = (\<lambda>(w, tr). case f w of (r, w') \<Rightarrow> (r, w', tr @ [ev]))"

text \<open>Sequencing: an exception of the first part skips the rest.\<close>

definition andThen :: "('w, 'a) action \<Rightarrow> ('a \<Rightarrow> ('w, 'b) action) \<Rightarrow> ('w, 'b) action" where
  "andThen m k = (\<lambda>s. case m s of (Inl e, s') \<Rightarrow> (Inl e, s') | (Inr a, s') \<Rightarrow> k a s')"

text \<open>
  \<^verbatim>\<open>try { body } finally { fin }\<close>: \<open>fin\<close> runs however \<open>body\<close> ends; the outcome is that of
  \<open>body\<close> unless \<open>fin\<close> throws.
\<close>

definition tryFinally :: "('w, 'a) action \<Rightarrow> ('w, unit) action \<Rightarrow> ('w, 'a) action" where
  "tryFinally body fin =
     (\<lambda>s. case body s of
             (r, s') \<Rightarrow> (case fin s' of (Inl e, s'') \<Rightarrow> (Inl e, s'') | (Inr u, s'') \<Rightarrow> (r, s'')))"

definition logInfo :: "string \<Rightarrow> ('w, unit) action" where
  "logInfo msg = (\<lambda>(w, tr). (Inr (), w, tr @ [EvLogInfo msg]))"

section \<open>The migrate operation\<close>

record MigrationModel =
  migration_name :: string
  applied_steps_count :: int

text \<open>
  The collaborators of \<^verbatim>\<open>CLI.migrate\<close>. The validator's predicates and the directory listing
  read the migrations folder, which the run does not change; \<open>readDataSource\<close> is the outcome of
  \<^verbatim>\<open>readDataSourceConfig(config.mainPrismaSchema)\<close>; \<open>validateMigrationName\<close> gives the error it
  throws, if any.
\<close>

record 'w ports =
  validateMigrationName :: "string \<Rightarrow> error option"
  isMigration :: "string \<Rightarrow> bool"
  isMigrationWithPostScript :: "string \<Rightarrow> bool"
  readdirSync :: "error + string list"
  readDataSource :: "error + DataSourceConfig"
  getMigrationPath :: "string \<Rightarrow> string"
  db_connect :: "DataSourceConfig \<Rightarrow> 'w \<Rightarrow> (error + unit) \<times> 'w"
  db_isPrismaMigrationsTableExists :: "'w \<Rightarrow> (error + bool) \<times> 'w"
  db_getMigrationByName :: "string \<Rightarrow> 'w \<Rightarrow> (error + MigrationModel option) \<times> 'w"
  migrateTo :: "string \<Rightarrow> 'w \<Rightarrow> (error + unit) \<times> 'w"
  runPostScript :: "string \<Rightarrow> 'w \<Rightarrow> (error + unit) \<times> 'w"
  db_disconnect :: "'w \<Rightarrow> (error + unit) \<times> 'w"

text \<open>\<^verbatim>\<open>Array.prototype.indexOf\<close>: the first index of the element, \<open>-1\<close> when it is absent.\<close>

fun indexOf :: "'a list \<Rightarrow> 'a \<Rightarrow> int" where
  "indexOf [] x = - 1"
| "indexOf (y # ys) x =
     (if y = x then 0 else (let i = indexOf ys x in if i < 0 then - 1 else i + 1))"

text \<open>
  \<^verbatim>\<open>Array.prototype.slice(0, end)\<close>: a negative \<open>end\<close> counts from the end of the array, and
  the bound is clamped to the array.
\<close>

definition slice0 :: "'a list \<Rightarrow> int \<Rightarrow> 'a list" where
  "slice0 xs e =
     (let n = int (length xs);
          k = (if e < 0 then max (n + e) 0 else min e n)
      in take (nat k) xs)"

text \<open>\<^verbatim>\<open>Array.prototype.at(-1)\<close>: \<^verbatim>\<open>undefined\<close> on the empty array.\<close>

definition at_last :: "'a list \<Rightarrow> 'a option" where
  "at_last xs = (if xs = [] then None else Some (last xs))"

text \<open>
  The optional target is \<open>None\<close> for \<^verbatim>\<open>undefined\<close>. The source tests it for truthiness, so the
  empty string counts as no target: \<open>truthy\<close> gives the target that passes the test.
\<close>

fun truthy :: "string option \<Rightarrow> string option" where
  "truthy None = None"
| "truthy (Some t) = (if t = [] then None else Some t)"

definition selectMigrations :: "string list \<Rightarrow> string option \<Rightarrow> bool \<Rightarrow> string list" where
  "selectMigrations rawMigrations targetMigration includeTargetMigration =
     (let lastMigrationIndex =
            (case truthy targetMigration of
               Some t \<Rightarrow> indexOf rawMigrations t
             | None \<Rightarrow> int (length rawMigrations))
      in slice0 rawMigrations (lastMigrationIndex + (if includeTargetMigration then 1 else 0)))"

text \<open>\<^verbatim>\<open>migration?.applied_steps_count ?? 0\<close>\<close>

definition appliedCount :: "MigrationModel option \<Rightarrow> int" where
  "appliedCount migration = (case migration of None \<Rightarrow> 0 | Some m \<Rightarrow> applied_steps_count m)"

text \<open>The body of the loop over \<^verbatim>\<open>dataMigrations\<close>.\<close>

definition migrate_iteration :: "'w ports \<Rightarrow> string \<Rightarrow> ('w, unit) action" where
  "migrate_iteration P migrationName =
     andThen (call EvIsPrismaMigrationsTableExists (db_isPrismaMigrationsTableExists P))
       (\<lambda>prismaTableExists.
     andThen (if prismaTableExists
              then call (EvGetMigrationByName migrationName) (db_getMigrationByName P migrationName)
              else result None)
       (\<lambda>migration.
     let migrationAppliedCount = (if prismaTableExists then appliedCount migration else 0) in
     andThen (call (EvMigrateTo migrationName) (migrateTo P migrationName))
       (\<lambda>u.
     andThen (call (EvGetMigrationByName migrationName) (db_getMigrationByName P migrationName))
       (\<lambda>newMigration.
     let newMigrationAppliedCount = appliedCount newMigration in
     if migrationAppliedCount + 1 = newMigrationAppliedCount
     then andThen (logInfo (''Executing post-migrate script for migration: '' @ migrationName))
            (\<lambda>u. call (EvRunPostScript (getMigrationPath P migrationName))
                    (runPostScript P (getMigrationPath P migrationName)))
     else result ()))))"

fun migrate_loop :: "'w ports \<Rightarrow> string list \<Rightarrow> ('w, unit) action" where
  "migrate_loop P [] = result ()"
| "migrate_loop P (migrationName # rest) =
     andThen (migrate_iteration P migrationName) (\<lambda>u. migrate_loop P rest)"

text \<open>
  What follows the loop: the catch-up call and the release of the connection. When the test
  holds \<^verbatim>\<open>migrations\<close> is not empty, as \<^verbatim>\<open>dataMigrations\<close> is filtered from it.
\<close>

definition migrate_finish :: "'w ports \<Rightarrow> string list \<Rightarrow> string list \<Rightarrow> ('w, unit) action" where
  "migrate_finish P migrations dataMigrations =
     andThen (if at_last dataMigrations \<noteq> at_last migrations
              then (case at_last migrations of
                      Some l \<Rightarrow> call (EvMigrateTo l) (migrateTo P l)
                    | None \<Rightarrow> raise (External ''migrateTo(undefined)''))
              else result ())
       (\<lambda>u. call EvDisconnect (db_disconnect P))"

definition migrate :: "'w ports \<Rightarrow> string option \<Rightarrow> bool \<Rightarrow> ('w, unit) action" where
  "migrate P targetMigration includeTargetMigration =
     andThen (case truthy targetMigration of
                Some t \<Rightarrow> (case validateMigrationName P t of
                             Some e \<Rightarrow> raise e
                           | None \<Rightarrow> result ())
              | None \<Rightarrow> result ())
       (\<lambda>u.
     andThen (lift (readdirSync P))
       (\<lambda>entries.
     let rawMigrations = filter (isMigration P) entries;
         migrations = selectMigrations rawMigrations targetMigration includeTargetMigration;
         dataMigrations = filter (isMigrationWithPostScript P) migrations in
     andThen (lift (readDataSource P))
       (\<lambda>dataSource.
     andThen (call EvConnect (db_connect P dataSource))
       (\<lambda>u.
     andThen (migrate_loop P dataMigrations)
       (\<lambda>u. migrate_finish P migrations dataMigrations)))))"


text \<open>
  Modelled from the spec: \<^verbatim>\<open>Validator.validateMigrationName\<close>, which is not among the
  sources. The spec has the registry return "the ordered list of entries recognized as
  migrations", has the orchestrator "resolve the ordered migration list from the Registry; if
  a target name was supplied, validate it is a recognized migration name", and gives the
  failure the kind InvalidMigrationName. A recognized migration name is the name of an entry
  of that list; \<open>migrations\<close> is the list.
\<close>

definition validateMigrationName_spec :: "string list \<Rightarrow> string \<Rightarrow> error option" where
  "validateMigrationName_spec migrations name =
     (if name \<in> set migrations then None else Some (InvalidMigrationName name))"

text \<open>
  A run that gets as far as an open connection: the target, if one is supplied, passes the
  validation, the directory is listed as \<open>entries\<close>, the datasource is resolved, and the
  connect call returns, leaving the world \<open>wc\<close>.
\<close>

definition established :: "'w ports \<Rightarrow> string option \<Rightarrow> 'w \<Rightarrow> string list \<Rightarrow> 'w \<Rightarrow> bool" where
  "established P targetMigration w entries wc =
     ((case truthy targetMigration of
         Some t \<Rightarrow> validateMigrationName P t = None
       | None \<Rightarrow> True) \<and>
      readdirSync P = Inr entries \<and>
      (case readDataSource P of
         Inl e \<Rightarrow> False
       | Inr dataSource \<Rightarrow> db_connect P dataSource w = (Inr (), wc)))"

text \<open>
  A run that gets to the pass for \<open>m\<close>, in the world \<open>w0\<close> with the trace \<open>tr0\<close>: the
  connection is established, the post-script-bearing migrations of the slice are \<open>pre\<close>,
  then \<open>m\<close>, then \<open>post\<close>, and the passes for \<open>pre\<close> have returned.
\<close>

definition reaches ::
  "'w ports \<Rightarrow> string option \<Rightarrow> bool \<Rightarrow> 'w \<Rightarrow> string list \<Rightarrow> 'w \<Rightarrow>
   string list \<Rightarrow> string \<Rightarrow> string list \<Rightarrow> 'w \<Rightarrow> event list \<Rightarrow> bool"
where
  "reaches P targetMigration includeTargetMigration w entries wc pre m post w0 tr0 =
     (established P targetMigration w entries wc \<and>
      filter (isMigrationWithPostScript P)
        (selectMigrations (filter (isMigration P) entries) targetMigration includeTargetMigration) =
      pre @ m # post \<and>
      migrate_loop P pre (wc, [EvConnect]) = (Inr (), w0, tr0))"

section \<open>The generate operation\<close>

text \<open>
  One of the tasks that \<^verbatim>\<open>CLI.generate\<close> starts, one per migration with a schema. The tasks
  are asynchronous, but a task awaits only inside \<^verbatim>\<open>createTempSchema\<close>: from the call of the
  generator to the removal of the file it runs without interruption.
\<close>

record ConfigSchema =
  migrationsDir :: string
  migrationSchemaFileName :: string
  outputDir :: string
  mainPrismaSchema :: string

record 'w gen_ports =
  path_join :: "string \<Rightarrow> string \<Rightarrow> string"
  path_dirname :: "string \<Rightarrow> string"
  path_isAbsolute :: "string \<Rightarrow> bool"
  fs_readFile :: "string \<Rightarrow> 'w \<Rightarrow> (error + string) \<times> 'w"
  parsePrismaSchema :: "string \<Rightarrow> error + PrismaSchema"
  formatAst :: "PrismaSchema \<Rightarrow> string"
  fs_mkdir :: "string \<Rightarrow> 'w \<Rightarrow> (error + unit) \<times> 'w"
  fs_writeFile :: "string \<Rightarrow> string \<Rightarrow> 'w \<Rightarrow> (error + unit) \<times> 'w"
  PrismaCLI_generate :: "string \<Rightarrow> 'w \<Rightarrow> (error + unit) \<times> 'w"
  fs_rmSync :: "string \<Rightarrow> 'w \<Rightarrow> (error + unit) \<times> 'w"

definition createTempSchema :: "'w gen_ports \<Rightarrow> string \<Rightarrow> string \<Rightarrow> string \<Rightarrow> ('w, unit) action" where
  "createTempSchema G srcPrismaSchemaPath clientOutputPath outPrismaSchemaPath =
     andThen (call (EvReadFile srcPrismaSchemaPath) (fs_readFile G srcPrismaSchemaPath))
       (\<lambda>schemaContent.
     andThen (lift (parsePrismaSchema G schemaContent))
       (\<lambda>parsed.
     andThen (lift (updateGenerator parsed clientOutputPath))
       (\<lambda>schemaAst.
     let formattedSchema = formatAst G schemaAst in
     andThen (call (EvMkdir (path_dirname G outPrismaSchemaPath))
                (fs_mkdir G (path_dirname G outPrismaSchemaPath)))
       (\<lambda>u. call (EvWriteFile outPrismaSchemaPath formattedSchema)
               (fs_writeFile G outPrismaSchemaPath formattedSchema)))))"

text \<open>
  The paths of a task; \<open>rnd\<close> is \<^verbatim>\<open>Math.random().toString(36).slice(2, 4)\<close> and
  \<open>migrationsDirPath\<close> is \<^verbatim>\<open>path.join(process.cwd(), config.migrationsDir)\<close>.
\<close>

definition schemaPathOf :: "'w gen_ports \<Rightarrow> ConfigSchema \<Rightarrow> string \<Rightarrow> string \<Rightarrow> string" where
  "schemaPathOf G config migrationsDirPath migrationName =
     path_join G (path_join G migrationsDirPath migrationName) (migrationSchemaFileName config)"

definition outputPathOf :: "'w gen_ports \<Rightarrow> ConfigSchema \<Rightarrow> string \<Rightarrow> string \<Rightarrow> string" where
  "outputPathOf G config migrationsDirPath migrationName =
     (let outputPath = outputDir config @ ''/'' @ migrationName
      in if \<not> path_isAbsolute G outputPath
         then path_join G (path_dirname G (schemaPathOf G config migrationsDirPath migrationName))
                outputPath
         else outputPath)"

definition tempSchemaPathOf :: "'w gen_ports \<Rightarrow> string \<Rightarrow> string \<Rightarrow> string \<Rightarrow> string" where
  "tempSchemaPathOf G migrationsDirPath rnd migrationName =
     path_join G migrationsDirPath
       (''.tmp-migration-schema-'' @ rnd @ ''_'' @ migrationName @ ''.prisma'')"

definition generate_task ::
  "'w gen_ports \<Rightarrow> ConfigSchema \<Rightarrow> string \<Rightarrow> string \<Rightarrow> string \<Rightarrow> ('w, unit) action"
where
  "generate_task G config migrationsDirPath rnd migrationName =
     (let schemaPath = schemaPathOf G config migrationsDirPath migrationName;
          outputPath = outputPathOf G config migrationsDirPath migrationName;
          tempSchemaPath = tempSchemaPathOf G migrationsDirPath rnd migrationName
      in andThen (createTempSchema G schemaPath outputPath tempSchemaPath)
           (\<lambda>u.
         andThen (tryFinally
                    (call (EvPrismaGenerate tempSchemaPath) (PrismaCLI_generate G tempSchemaPath))
                    (call (EvRmSync tempSchemaPath) (fs_rmSync G tempSchemaPath)))
           (\<lambda>u. logInfo (''Types generated for migration: '' @ migrationName))))"


section \<open>Concrete collaborators\<close>

text \<open>
  A database with a connection flag and a history table (absent on a fresh database) that maps
  migration names to step counts, a rule for the entries that are migrations (the name starts
  with a digit), a validator that accepts the names of the listed migrations, and three
  engines: one whose call moves the step count of the named migration by \<open>d\<close>, one whose call
  throws, and one whose call throws for one migration only.
\<close>

record demo_db =
  db_connected :: bool
  history :: "(string \<times> int) list option"

definition demo_recognized :: "string \<Rightarrow> bool" where
  "demo_recognized n = (n \<noteq> [] \<and> hd n \<in> set ''0123456789'')"

definition engine_add :: "int \<Rightarrow> string \<Rightarrow> demo_db \<Rightarrow> (error + unit) \<times> demo_db" where
  "engine_add d n w =
     (let h = (case history w of None \<Rightarrow> [] | Some h \<Rightarrow> h);
          old = (case map_of h n of None \<Rightarrow> 0 | Some c \<Rightarrow> c)
      in (Inr (), w\<lparr>history := Some ((n, old + d) # filter (\<lambda>r. fst r \<noteq> n) h)\<rparr>))"

definition engine_fail :: "string \<Rightarrow> demo_db \<Rightarrow> (error + unit) \<times> demo_db" where
  "engine_fail n w = (Inl (External ''engine failure''), w)"

definition engine_fail_on :: "string \<Rightarrow> string \<Rightarrow> demo_db \<Rightarrow> (error + unit) \<times> demo_db" where
  "engine_fail_on bad n w = (if n = bad then engine_fail n w else engine_add 1 n w)"

definition demo_getMigrationByName ::
  "string \<Rightarrow> demo_db \<Rightarrow> (error + MigrationModel option) \<times> demo_db"
where
  "demo_getMigrationByName n w =
     (case history w of
        None \<Rightarrow> (Inl (External ''relation _prisma_migrations does not exist''), w)
      | Some h \<Rightarrow>
          (Inr (map_option (\<lambda>c. \<lparr>migration_name = n, applied_steps_count = c\<rparr>) (map_of h n)), w))"

definition demo_ports ::
  "string list \<Rightarrow> string list \<Rightarrow> (string \<Rightarrow> demo_db \<Rightarrow> (error + unit) \<times> demo_db) \<Rightarrow> demo_db ports"
where
  "demo_ports entries withPostScript engine =
     \<lparr> validateMigrationName = validateMigrationName_spec (filter demo_recognized entries),
       isMigration = demo_recognized,
       isMigrationWithPostScript = (\<lambda>n. n \<in> set withPostScript),
       readdirSync = Inr entries,
       readDataSource = Inr \<lparr>provider = Text ''postgresql'', url = Text ''postgresql://x''\<rparr>,
       getMigrationPath = (\<lambda>n. ''/app/prisma/migrations/'' @ n),
       db_connect = (\<lambda>ds w. (Inr (), w\<lparr>db_connected := True\<rparr>)),
       db_isPrismaMigrationsTableExists = (\<lambda>w. (Inr (history w \<noteq> None), w)),
       db_getMigrationByName = demo_getMigrationByName,
       migrateTo = engine,
       runPostScript = (\<lambda>p w. (Inr (), w)),
       db_disconnect = (\<lambda>w. (Inr (), w\<lparr>db_connected := False\<rparr>)) \<rparr>"

definition fresh_db :: demo_db where
  "fresh_db = \<lparr>db_connected = False, history = None\<rparr>"

definition db_with :: "(string \<times> int) list \<Rightarrow> demo_db" where
  "db_with h = \<lparr>db_connected = False, history = Some h\<rparr>"

text \<open>
  A file system as a list of paths with their contents, and a parser that reads every file as
  one fixed schema.
\<close>

definition demo_schema :: PrismaSchema where
  "demo_schema =
     [Datasource ''db'' [Config ''provider'' (Literal (StrV ''postgresql'')),
                         Config ''url'' (FunctionCall [''env''] (Some [Literal (StrV ''DATABASE_URL'')]))],
      Generator ''client'' [Config ''provider'' (Literal (StrV ''prisma-client-js''))],
      OtherDeclaration ''model User'']"

definition demo_rmSync :: "string \<Rightarrow> (string \<times> string) list \<Rightarrow> (error + unit) \<times> (string \<times> string) list" where
  "demo_rmSync p w =
     (if p \<in> fst ` set w then (Inr (), filter (\<lambda>f. fst f \<noteq> p) w)
      else (Inl (External ''ENOENT''), w))"

definition demo_gen ::
  "(string \<Rightarrow> (string \<times> string) list \<Rightarrow> (error + unit) \<times> (string \<times> string) list) \<Rightarrow>
   ((string \<times> string) list) gen_ports"
where
  "demo_gen generator =
     \<lparr> path_join = (\<lambda>a b. a @ ''/'' @ b),
       path_dirname = (\<lambda>p. rev (tl (dropWhile (\<lambda>c. c \<noteq> CHR ''/'') (rev p)))),
       path_isAbsolute = (\<lambda>p. p \<noteq> [] \<and> hd p = CHR ''/''),
       fs_readFile = (\<lambda>p w. (case map_of w p of
                                None \<Rightarrow> (Inl (External ''ENOENT''), w)
                              | Some c \<Rightarrow> (Inr c, w))),
       parsePrismaSchema = (\<lambda>c. Inr demo_schema),
       formatAst = (\<lambda>a. ''generator client {}''),
       fs_mkdir = (\<lambda>p w. (Inr (), w)),
       fs_writeFile = (\<lambda>p c w. (Inr (), (p, c) # filter (\<lambda>f. fst f \<noteq> p) w)),
       PrismaCLI_generate = generator,
       fs_rmSync = demo_rmSync \<rparr>"

definition demo_config :: ConfigSchema where
  "demo_config =
     \<lparr> migrationsDir = ''prisma/migrations'', migrationSchemaFileName = ''schema.prisma'',
       outputDir = ''../../../generated'', mainPrismaSchema = ''prisma/schema.prisma'' \<rparr>"

definition demo_files :: "(string \<times> string) list" where
  "demo_files = [(''/app/prisma/migrations/002_add_col/schema.prisma'', ''generator client { }'')]"

definition spec_example :: "demo_db ports" where
  "spec_example =
     demo_ports [''001_init'', ''002_add_col'', ''003_seed''] [''002_add_col''] (engine_add 1)"

definition regressing_example :: "demo_db ports" where
  "regressing_example =
     demo_ports [''001_init'', ''002_add_col'', ''003_seed''] [''002_add_col''] (engine_add (- 1))"

definition failing_example :: "demo_db ports" where
  "failing_example =
     demo_ports [''001_init'', ''002_add_col'', ''003_seed''] [''002_add_col''] engine_fail"

definition catch_up_failing_example :: "demo_db ports" where
  "catch_up_failing_example =
     demo_ports [''001_init'', ''002_add_col'', ''003_seed''] [''002_add_col'']
       (engine_fail_on ''003_seed'')"

definition connection_lost :: "demo_db \<Rightarrow> (error + 'a) \<times> demo_db" where
  "connection_lost w = (Inl (External ''connection lost''), w)"

definition table_check_failing_example :: "demo_db ports" where
  "table_check_failing_example =
     spec_example\<lparr>db_isPrismaMigrationsTableExists := connection_lost\<rparr>"

definition sampling_failing_example :: "demo_db ports" where
  "sampling_failing_example =
     spec_example\<lparr>db_getMigrationByName := (\<lambda>n. connection_lost)\<rparr>"

definition script_failing :: "string \<Rightarrow> demo_db \<Rightarrow> (error + unit) \<times> demo_db" where
  "script_failing p w = (Inl (External ''post script exited with code 1''), w)"

definition script_failing_example :: "demo_db ports" where
  "script_failing_example = spec_example\<lparr>runPostScript := script_failing\<rparr>"

definition crashing_generator ::
  "string \<Rightarrow> (string \<times> string) list \<Rightarrow> (error + unit) \<times> (string \<times> string) list"
where
  "crashing_generator p w = (Inl (External ''generator crashed''), w)"

definition demo_env :: "string \<rightharpoonup> string" where
  "demo_env =
     map_of [(''DATABASE_URL'', []), (''DB_PROVIDER'', ''postgresql''),
             (''DB_URL'', ''postgresql://x'')]"



text \<open>The names of the properties of \<^verbatim>\<open>Object.prototype\<close>.\<close>

definition object_prototype_names :: "string \<Rightarrow> bool" where
  "object_prototype_names n =
     (n \<in> set [''constructor'', ''toString'', ''toLocaleString'', ''valueOf'', ''hasOwnProperty'',
               ''isPrototypeOf'', ''propertyIsEnumerable'', ''__proto__'', ''__defineGetter__'',
               ''__defineSetter__'', ''__lookupGetter__'', ''__lookupSetter__''])"

definition output_schema :: PrismaSchema where
  "output_schema =
     [Generator ''client''
        [Config ''provider'' (Literal (StrV ''prisma-client'')),
         Config ''output'' (Literal (StrV ''../generated''))],
      Generator ''docs'' [Config ''provider'' (Literal (StrV ''prisma-docs-generator''))]]"

section \<open>Reading traces\<close>


text \<open>An action that only adds events of the kind \<open>q\<close> to the trace.\<close>

definition appends :: "(event \<Rightarrow> bool) \<Rightarrow> ('w, 'a) action \<Rightarrow> bool" where
  "appends q act =
     (\<forall>w tr r w' tr'. act (w, tr) = (r, w', tr') \<longrightarrow> (\<exists>new. tr' = tr @ new \<and> list_all q new))"

section \<open>Datasource resolution: what each expression form resolves to\<close>



text \<open>
  The read of an unset variable whose name \<^verbatim>\<open>process.env\<close> inherits does not fail: it hands
  back the inherited property.
\<close>

lemma inherited_name_is_read:
  "readArgumentWithEnv readStringArgument object_prototype_names demo_env
     (FunctionCall [''env''] (Some [Literal (StrV ''constructor'')])) =
   Inr (Inherited ''constructor'')"
  by (simp add: env_read_def demo_env_def object_prototype_names_def)

text \<open>
  Claim C7, as the code has it. A string literal resolves to its string. A call of \<^verbatim>\<open>env\<close> with
  one argument that names a variable resolves to the value of that variable when the variable
  is set and its value is not empty; it fails with "is not set" when the variable is set to
  the empty string, and when it is unset and its name is not one that \<^verbatim>\<open>process.env\<close>
  inherits. Every other form fails: \<^verbatim>\<open>env\<close> with no argument list or with an argument count
  other than one ("must have exactly one argument"), \<^verbatim>\<open>env\<close> whose argument is not a string
  (the library's error), a literal that is not a string ("expected a string literal"), and any
  other call, path, array or named argument ("only string literals and env() function calls
  are supported").
\<close>

theorem resolution_by_form:
  "readArgumentWithEnv rsa inherited env (Literal (StrV s)) = Inr (Text s) \<and>
   (join_dot p = ''env'' \<and> rsa a = Inr n \<and> env n = Some v \<and> v \<noteq> [] \<longrightarrow>
      readArgumentWithEnv rsa inherited env (FunctionCall p (Some [a])) = Inr (Text v)) \<and>
   (join_dot p = ''env'' \<and> rsa a = Inr n \<and> env n = Some [] \<longrightarrow>
      readArgumentWithEnv rsa inherited env (FunctionCall p (Some [a])) = Inl (EnvNotSet n)) \<and>
   (join_dot p = ''env'' \<and> rsa a = Inr n \<and> env n = None \<and> \<not> inherited n \<longrightarrow>
      readArgumentWithEnv rsa inherited env (FunctionCall p (Some [a])) = Inl (EnvNotSet n)) \<and>
   (join_dot p = ''env'' \<and> rsa a = Inl e \<longrightarrow>
      readArgumentWithEnv rsa inherited env (FunctionCall p (Some [a])) = Inl e) \<and>
   (join_dot p = ''env'' \<and> (args = None \<or> (\<exists>as. args = Some as \<and> length as \<noteq> 1)) \<longrightarrow>
      readArgumentWithEnv rsa inherited env (FunctionCall p args) = Inl EnvArgCount) \<and>
   (join_dot p \<noteq> ''env'' \<longrightarrow>
      readArgumentWithEnv rsa inherited env (FunctionCall p args) = Inl UnsupportedExpression) \<and>
   readArgumentWithEnv rsa inherited env (Literal (NumV i)) = Inl ExpectedStringLiteral \<and>
   readArgumentWithEnv rsa inherited env (Literal (BoolV b)) = Inl ExpectedStringLiteral \<and>
   readArgumentWithEnv rsa inherited env (Path q) = Inl UnsupportedExpression \<and>
   readArgumentWithEnv rsa inherited env (Array xs) = Inl UnsupportedExpression \<and>
   readArgumentWithEnv rsa inherited env (NamedArgument k x) = Inl UnsupportedExpression"
  by (auto simp: env_read_def split: option.splits)

theorem resolution_by_form_witness:
  "readArgumentWithEnv readStringArgument object_prototype_names demo_env
     (FunctionCall [''env''] (Some [Literal (StrV ''DB_URL'')])) = Inr (Text ''postgresql://x'') \<and>
   readArgumentWithEnv readStringArgument object_prototype_names demo_env
     (FunctionCall [''env''] (Some [Literal (StrV ''DATABASE_URL'')])) =
     Inl (EnvNotSet ''DATABASE_URL'') \<and>
   readArgumentWithEnv readStringArgument object_prototype_names demo_env
     (FunctionCall [''env''] (Some [Literal (StrV ''UNSET'')])) = Inl (EnvNotSet ''UNSET'') \<and>
   readArgumentWithEnv readStringArgument object_prototype_names demo_env
     (FunctionCall [''env''] (Some [Literal (NumV 1)])) = Inl (External ''string literal expected'') \<and>
   readArgumentWithEnv readStringArgument object_prototype_names demo_env
     (FunctionCall [''env''] (Some [])) = Inl EnvArgCount \<and>
   readArgumentWithEnv readStringArgument object_prototype_names demo_env
     (FunctionCall [''dbgenerated''] None) = Inl UnsupportedExpression"
proof -
  have j: "join_dot [''env''] = ''env''" and nj: "join_dot [''dbgenerated''] \<noteq> ''env''"
    by simp_all
  have r1: "readStringArgument (Literal (StrV ''DB_URL'')) = Inr ''DB_URL''"
    and r2: "readStringArgument (Literal (StrV ''UNSET'')) = Inr ''UNSET''"
    and r3: "readStringArgument (Literal (NumV 1)) = Inl (External ''string literal expected'')"
    and r4: "readStringArgument (Literal (StrV ''DATABASE_URL'')) = Inr ''DATABASE_URL''"
    by simp_all
  have e1: "demo_env ''DB_URL'' = Some ''postgresql://x'' \<and> ''postgresql://x'' \<noteq> []"
    and e2: "demo_env ''UNSET'' = None \<and> \<not> object_prototype_names ''UNSET''"
    and e4: "demo_env ''DATABASE_URL'' = Some []"
    by (simp_all add: demo_env_def object_prototype_names_def)
  have c: "Some ([] :: SchemaArgument list) = None \<or>
           (\<exists>as. Some ([] :: SchemaArgument list) = Some as \<and> length as \<noteq> 1)"
    by simp
  have a1: "readArgumentWithEnv readStringArgument object_prototype_names demo_env
     (FunctionCall [''env''] (Some [Literal (StrV ''DB_URL'')])) = Inr (Text ''postgresql://x'')"
    using resolution_by_form [of readStringArgument object_prototype_names demo_env _ "[''env'']"
            "Literal (StrV ''DB_URL'')" "''DB_URL''" "''postgresql://x''"] j r1 e1
    by blast
  have a2: "readArgumentWithEnv readStringArgument object_prototype_names demo_env
     (FunctionCall [''env''] (Some [Literal (StrV ''DATABASE_URL'')])) =
     Inl (EnvNotSet ''DATABASE_URL'')"
    using resolution_by_form [of readStringArgument object_prototype_names demo_env _ "[''env'']"
            "Literal (StrV ''DATABASE_URL'')" "''DATABASE_URL''"] j r4 e4
    by blast
  have a3: "readArgumentWithEnv readStringArgument object_prototype_names demo_env
     (FunctionCall [''env''] (Some [Literal (StrV ''UNSET'')])) = Inl (EnvNotSet ''UNSET'')"
    using resolution_by_form [of readStringArgument object_prototype_names demo_env _ "[''env'']"
            "Literal (StrV ''UNSET'')" "''UNSET''"] j r2 e2
    by blast
  have a4: "readArgumentWithEnv readStringArgument object_prototype_names demo_env
     (FunctionCall [''env''] (Some [Literal (NumV 1)])) = Inl (External ''string literal expected'')"
    using resolution_by_form [of readStringArgument object_prototype_names demo_env _ "[''env'']"
            "Literal (NumV 1)" _ _ "External ''string literal expected''"] j r3
    by blast
  have a5: "readArgumentWithEnv readStringArgument object_prototype_names demo_env
     (FunctionCall [''env''] (Some [])) = Inl EnvArgCount"
    using resolution_by_form [of readStringArgument object_prototype_names demo_env _ "[''env'']"
            _ _ _ _ "Some []"] j c
    by blast
  have a6: "readArgumentWithEnv readStringArgument object_prototype_names demo_env
     (FunctionCall [''dbgenerated''] None) = Inl UnsupportedExpression"
    using resolution_by_form [of readStringArgument object_prototype_names demo_env _
            "[''dbgenerated'']" _ _ _ _ None] nj
    by blast
  show ?thesis using a1 a2 a3 a4 a5 a6 by blast
qed

text \<open>
  The variable \<^verbatim>\<open>DATABASE_URL\<close> is set, to the empty string, and \<^verbatim>\<open>env("DATABASE_URL")\<close> does
  not resolve to that value: it fails.
\<close>

theorem env_set_but_empty_counterexample:
  "demo_env ''DATABASE_URL'' = Some [] \<and>
   readArgumentWithEnv readStringArgument object_prototype_names demo_env
     (FunctionCall [''env''] (Some [Literal (StrV ''DATABASE_URL'')])) =
   Inl (EnvNotSet ''DATABASE_URL'')"
  by (simp add: demo_env_def env_read_def)



section \<open>Slice selection\<close>

lemma indexOf_absent: "x \<notin> set xs \<Longrightarrow> indexOf xs x = - 1"
  by (induction xs) (auto simp: Let_def)

lemma indexOf_member:
  "x \<in> set xs \<Longrightarrow> indexOf xs x = int (length (takeWhile (\<lambda>y. y \<noteq> x) xs))"
  by (induction xs) (auto simp: Let_def indexOf_absent)

lemma take_takeWhile_member:
  "x \<in> set xs \<Longrightarrow> take (length (takeWhile (\<lambda>y. y \<noteq> x) xs)) xs = takeWhile (\<lambda>y. y \<noteq> x) xs"
  by (induction xs) auto

lemma take_Suc_takeWhile_member:
  "x \<in> set xs \<Longrightarrow>
   take (Suc (length (takeWhile (\<lambda>y. y \<noteq> x) xs))) xs = takeWhile (\<lambda>y. y \<noteq> x) xs @ [x]"
  by (induction xs) auto

lemma takeWhile_before_member:
  "x \<in> set xs \<Longrightarrow> length (takeWhile (\<lambda>y. y \<noteq> x) xs) < length xs"
  by (induction xs) auto

text \<open>
  Claim C3. For a target that is a member of the ordered list (a directory entry, so not the
  empty name), the selection without the target is the part of the list strictly before the
  target, which does not contain it, and the selection with the target is that part followed
  by the target. Without a target the selection is the whole list, whatever the flag.
\<close>

theorem selectMigrations_slice:
  "(t \<in> set ms \<and> t \<noteq> [] \<longrightarrow>
      selectMigrations ms (Some t) False = takeWhile (\<lambda>m. m \<noteq> t) ms \<and>
      t \<notin> set (selectMigrations ms (Some t) False) \<and>
      selectMigrations ms (Some t) True = takeWhile (\<lambda>m. m \<noteq> t) ms @ [t]) \<and>
   selectMigrations ms None b = ms"
proof -
  have whole: "selectMigrations ms None b = ms"
    by (simp add: selectMigrations_def slice0_def Let_def)
  have part: "selectMigrations ms (Some t) False = takeWhile (\<lambda>m. m \<noteq> t) ms \<and>
      t \<notin> set (selectMigrations ms (Some t) False) \<and>
      selectMigrations ms (Some t) True = takeWhile (\<lambda>m. m \<noteq> t) ms @ [t]"
    if mem: "t \<in> set ms" and ne: "t \<noteq> []"
  proof -
    let ?k = "length (takeWhile (\<lambda>m. m \<noteq> t) ms)"
    have lt: "?k < length ms" using mem by (rule takeWhile_before_member)
    have ex: "selectMigrations ms (Some t) False = take ?k ms"
      using ne lt by (simp add: selectMigrations_def slice0_def Let_def indexOf_member [OF mem])
    have "nat (int ?k + 1) = Suc ?k" by simp
    then have inc: "selectMigrations ms (Some t) True = take (Suc ?k) ms"
      using ne lt by (simp add: selectMigrations_def slice0_def Let_def indexOf_member [OF mem] min_def)
    have before: "selectMigrations ms (Some t) False = takeWhile (\<lambda>m. m \<noteq> t) ms"
      using ex take_takeWhile_member [OF mem] by simp
    have "t \<notin> set (takeWhile (\<lambda>m. m \<noteq> t) ms)"
      by (auto dest: set_takeWhileD)
    then show ?thesis
      using before inc take_Suc_takeWhile_member [OF mem] by simp
  qed
  show ?thesis using whole part by blast
qed

theorem selectMigrations_slice_witness:
  "selectMigrations [''001_init'', ''002_add_col'', ''003_seed''] (Some ''002_add_col'') False =
     [''001_init''] \<and>
   selectMigrations [''001_init'', ''002_add_col'', ''003_seed''] (Some ''002_add_col'') True =
     [''001_init'', ''002_add_col''] \<and>
   selectMigrations [''001_init'', ''002_add_col'', ''003_seed''] None False =
     [''001_init'', ''002_add_col'', ''003_seed'']"
proof -
  have h: "''002_add_col'' \<in> set [''001_init'', ''002_add_col'', ''003_seed''] \<and>
           ''002_add_col'' \<noteq> []"
    by simp
  show ?thesis
    using selectMigrations_slice
            [of "''002_add_col''" "[''001_init'', ''002_add_col'', ''003_seed'']" False] h
    by simp
qed

section \<open>The generator block\<close>

lemma filter_update_first:
  assumes "\<And>x. p x \<Longrightarrow> p (f x)"
  shows "filter p (update_first p f xs) = (case filter p xs of [] \<Rightarrow> [] | y # ys \<Rightarrow> f y # ys)"
  using assms by (induction xs) (auto split: list.splits)

lemma length_update_first: "length (update_first p f xs) = length xs"
  by (induction xs) auto

lemma isClientProvider_setConfigValue:
  "isConfigNamed ''output'' m \<Longrightarrow> \<not> isClientProvider m \<and> \<not> isClientProvider (setConfigValue v m)"
  by (cases m; cases v) (auto elim: isClientProvider.elims)

lemma list_ex_update_first_output:
  "list_ex isClientProvider (update_first (isConfigNamed ''output'') (setConfigValue v) ms) =
   list_ex isClientProvider ms"
  by (induction ms) (auto simp: isClientProvider_setConfigValue)

lemma list_ex_setOutput: "list_ex isClientProvider (setOutput p ms) = list_ex isClientProvider ms"
  by (simp add: setOutput_def list_ex_update_first_output split: option.splits)

lemma isClientGenerator_setGeneratorOutput:
  "isClientGenerator (setGeneratorOutput p d) = isClientGenerator d"
  by (cases d) (simp_all add: list_ex_setOutput)

lemma find_update_first:
  "find q xs = Some y \<Longrightarrow> q (f y) \<Longrightarrow> find q (update_first q f xs) = Some (f y)"
  by (induction xs) (auto split: if_splits)

lemma find_append_new: "find q xs = None \<Longrightarrow> q y \<Longrightarrow> find q (xs @ [y]) = Some y"
  by (induction xs) (auto split: if_splits)

lemma find_output_setOutput:
  "find (isConfigNamed ''output'') (setOutput p ms) = Some (Config ''output'' (Literal (StrV p)))"
proof (cases "find (isConfigNamed ''output'') ms")
  case None
  then show ?thesis by (simp add: setOutput_def find_append_new)
next
  case (Some y)
  then have "isConfigNamed ''output'' y" by (auto simp: find_Some_iff)
  then obtain old where y: "y = Config ''output'' old" by (cases y) auto
  show ?thesis
    using Some find_update_first [OF Some, of "setConfigValue (Literal (StrV p))"]
    by (simp add: setOutput_def y)
qed

lemma isClientGenerator_hasMembers: "isClientGenerator d \<Longrightarrow> hasMembers d"
  by (cases d) auto

text \<open>
  Claim C5. When the number of client-generator blocks is not one, the rewrite fails with the
  block-count error. When there is exactly one such block \<open>g0\<close>, the rewrite succeeds; the
  rewritten schema has as many declarations and again exactly one client-generator block
  \<open>g\<close>, whose output member is the literal of the supplied path: appended after the members
  of \<open>g0\<close> when \<open>g0\<close> had no output member, written over the value of its first output
  member otherwise.
\<close>

theorem updateGenerator_one_block:
  "(length (filter isClientGenerator ast) \<noteq> 1 \<longrightarrow>
      updateGenerator ast p = Inl GeneratorBlockCount) \<and>
   (filter isClientGenerator ast = [g0] \<longrightarrow>
      (\<exists>ast' g. updateGenerator ast p = Inr ast' \<and>
         length ast' = length ast \<and>
         filter isClientGenerator ast' = [g] \<and>
         outputOf g = Some (Literal (StrV p)) \<and>
         (outputOf g0 = None \<longrightarrow>
            declMembers g = declMembers g0 @ [Config ''output'' (Literal (StrV p))]) \<and>
         (outputOf g0 \<noteq> None \<longrightarrow>
            declMembers g = update_first (isConfigNamed ''output'')
                              (setConfigValue (Literal (StrV p))) (declMembers g0))))"
proof -
  have bad: "length (filter isClientGenerator ast) \<noteq> 1 \<longrightarrow>
      updateGenerator ast p = Inl GeneratorBlockCount"
    by (simp add: updateGenerator_def Let_def)
  have good: "\<exists>ast' g. updateGenerator ast p = Inr ast' \<and>
         length ast' = length ast \<and>
         filter isClientGenerator ast' = [g] \<and>
         outputOf g = Some (Literal (StrV p)) \<and>
         (outputOf g0 = None \<longrightarrow>
            declMembers g = declMembers g0 @ [Config ''output'' (Literal (StrV p))]) \<and>
         (outputOf g0 \<noteq> None \<longrightarrow>
            declMembers g = update_first (isConfigNamed ''output'')
                              (setConfigValue (Literal (StrV p))) (declMembers g0))"
    if one: "filter isClientGenerator ast = [g0]"
  proof -
    have "g0 \<in> set (filter isClientGenerator ast)" using one by simp
    then have cg: "isClientGenerator g0" by simp
    then obtain n ms where g0: "g0 = Generator n ms" by (cases g0) auto
    let ?ast' = "update_first isClientGenerator (setGeneratorOutput p) ast"
    let ?g = "setGeneratorOutput p g0"
    have r: "updateGenerator ast p = Inr ?ast'"
      using one cg by (simp add: updateGenerator_def Let_def isClientGenerator_hasMembers)
    have f: "filter isClientGenerator ?ast' = [?g]"
      using one by (simp add: filter_update_first isClientGenerator_setGeneratorOutput)
    have out: "outputOf ?g = Some (Literal (StrV p))"
      by (simp add: g0 outputOf_def find_output_setOutput)
    have m1: "outputOf g0 = None \<longrightarrow>
            declMembers ?g = declMembers g0 @ [Config ''output'' (Literal (StrV p))]"
      by (simp add: g0 outputOf_def setOutput_def split: option.splits)
    have m2: "outputOf g0 \<noteq> None \<longrightarrow>
            declMembers ?g = update_first (isConfigNamed ''output'')
                              (setConfigValue (Literal (StrV p))) (declMembers g0)"
      by (simp add: g0 outputOf_def setOutput_def split: option.splits)
    show ?thesis using r f out m1 m2 by (simp add: length_update_first)
  qed
  show ?thesis using bad good by blast
qed

text \<open>
  No block and two blocks fail; one block without output member gets it appended; one block
  with an output member, beside a generator of another kind, gets it written over.
\<close>

theorem updateGenerator_one_block_witness:
  "updateGenerator [] ''/out/002_add_col'' = Inl GeneratorBlockCount \<and>
   updateGenerator (demo_schema @ demo_schema) ''/out/002_add_col'' = Inl GeneratorBlockCount \<and>
   (\<exists>ast' g. updateGenerator demo_schema ''/out/002_add_col'' = Inr ast' \<and>
      filter isClientGenerator ast' = [g] \<and>
      outputOf g = Some (Literal (StrV ''/out/002_add_col'')) \<and>
      declMembers g = [Config ''provider'' (Literal (StrV ''prisma-client-js'')),
                       Config ''output'' (Literal (StrV ''/out/002_add_col''))]) \<and>
   (\<exists>ast' g. updateGenerator output_schema ''/out/002_add_col'' = Inr ast' \<and>
      filter isClientGenerator ast' = [g] \<and>
      outputOf g = Some (Literal (StrV ''/out/002_add_col'')) \<and>
      declMembers g = [Config ''provider'' (Literal (StrV ''prisma-client'')),
                       Config ''output'' (Literal (StrV ''/out/002_add_col''))])"
proof -
  let ?g1 = "Generator ''client'' [Config ''provider'' (Literal (StrV ''prisma-client-js''))]"
  let ?g2 = "Generator ''client''
        [Config ''provider'' (Literal (StrV ''prisma-client'')),
         Config ''output'' (Literal (StrV ''../generated''))]"
  have h0: "length (filter isClientGenerator []) \<noteq> 1"
    and h2: "length (filter isClientGenerator (demo_schema @ demo_schema)) \<noteq> 1"
    by (simp_all add: demo_schema_def)
  have h1: "filter isClientGenerator demo_schema = [?g1]" and o1: "outputOf ?g1 = None"
    by (simp_all add: demo_schema_def outputOf_def)
  have h3: "filter isClientGenerator output_schema = [?g2]" and o3: "outputOf ?g2 \<noteq> None"
    by (simp_all add: output_schema_def outputOf_def)
  have a: "updateGenerator [] ''/out/002_add_col'' = Inl GeneratorBlockCount"
    using updateGenerator_one_block [of "[]" "''/out/002_add_col''"] h0 by blast
  have b: "updateGenerator (demo_schema @ demo_schema) ''/out/002_add_col'' = Inl GeneratorBlockCount"
    using updateGenerator_one_block [of "demo_schema @ demo_schema" "''/out/002_add_col''"] h2
    by blast
  have c: "\<exists>ast' g. updateGenerator demo_schema ''/out/002_add_col'' = Inr ast' \<and>
      filter isClientGenerator ast' = [g] \<and>
      outputOf g = Some (Literal (StrV ''/out/002_add_col'')) \<and>
      declMembers g = [Config ''provider'' (Literal (StrV ''prisma-client-js'')),
                       Config ''output'' (Literal (StrV ''/out/002_add_col''))]"
    using updateGenerator_one_block [of demo_schema "''/out/002_add_col''" ?g1] h1 o1
    by auto
  have d: "\<exists>ast' g. updateGenerator output_schema ''/out/002_add_col'' = Inr ast' \<and>
      filter isClientGenerator ast' = [g] \<and>
      outputOf g = Some (Literal (StrV ''/out/002_add_col'')) \<and>
      declMembers g = [Config ''provider'' (Literal (StrV ''prisma-client'')),
                       Config ''output'' (Literal (StrV ''/out/002_add_col''))]"
    using updateGenerator_one_block [of output_schema "''/out/002_add_col''" ?g2] h3 o3
    by auto
  show ?thesis using a b c d by blast
qed

section \<open>The loop body\<close>

lemmas action_defs = result_def raise_def lift_def call_def andThen_def logInfo_def

text \<open>
  One pass of the loop whose sampling calls and engine call return: the events it adds and
  its outcome, by the two samples.
\<close>

lemma migrate_iteration_sampled:
  assumes t: "db_isPrismaMigrationsTableExists P w = (Inr ex, w1)"
    and b: "if ex then db_getMigrationByName P m w1 = (Inr mig, w2) else w2 = w1"
    and e: "migrateTo P m w2 = (Inr (), w3)"
    and a: "db_getMigrationByName P m w3 = (Inr newMig, w4)"
  shows "migrate_iteration P m (w, tr) =
     (let before = (if ex then appliedCount mig else 0);
          sampled = tr @ [EvIsPrismaMigrationsTableExists] @
                    (if ex then [EvGetMigrationByName m] else []) @
                    [EvMigrateTo m, EvGetMigrationByName m]
      in if before + 1 = appliedCount newMig
         then (case runPostScript P (getMigrationPath P m) w4 of
                 (r, w5) \<Rightarrow>
                   (r, w5, sampled @
                      [EvLogInfo (''Executing post-migrate script for migration: '' @ m),
                       EvRunPostScript (getMigrationPath P m)]))
         else (Inr (), w4, sampled))"
proof (cases ex)
  case True
  then show ?thesis
    using t b e a by (simp add: migrate_iteration_def action_defs Let_def split: prod.splits)
next
  case False
  then show ?thesis
    using t b e a by (simp add: migrate_iteration_def action_defs Let_def split: prod.splits)
qed

lemma migrate_loop_step:
  "migrate_loop P (m # ms) s =
     (case migrate_iteration P m s of
        (Inl e, s') \<Rightarrow> (Inl e, s')
      | (Inr u, s') \<Rightarrow> migrate_loop P ms s')"
  by (simp add: andThen_def)

section \<open>Runs of the operation\<close>

lemma appends_result: "appends q (result a)"
  by (simp add: appends_def result_def)

lemma appends_raise: "appends q (raise e)"
  by (simp add: appends_def raise_def)

lemma appends_lift: "appends q (lift x)"
  by (simp add: appends_def lift_def)

lemma appends_logInfo: "q (EvLogInfo msg) \<Longrightarrow> appends q (logInfo msg)"
  by (simp add: appends_def logInfo_def)

lemma appends_call: "q ev \<Longrightarrow> appends q (call ev f)"
  by (auto simp: appends_def call_def split: prod.splits)

lemma appends_andThen:
  assumes m: "appends q m" and k: "\<And>a. appends q (k a)"
  shows "appends q (andThen m k)"
  unfolding appends_def
proof (intro allI impI)
  fix w tr r w' tr'
  assume run: "andThen m k (w, tr) = (r, w', tr')"
  obtain r1 w1 tr1 where m1: "m (w, tr) = (r1, w1, tr1)"
    by (cases "m (w, tr)") auto
  from m m1 obtain n1 where n1: "tr1 = tr @ n1" "list_all q n1"
    unfolding appends_def by blast
  show "\<exists>new. tr' = tr @ new \<and> list_all q new"
  proof (cases r1)
    case (Inl e)
    then have "tr' = tr1" using run m1 by (simp add: andThen_def)
    then show ?thesis using n1 by blast
  next
    case (Inr a)
    then have "k a (w1, tr1) = (r, w', tr')" using run m1 by (simp add: andThen_def)
    with k [of a] obtain n2 where "tr' = tr1 @ n2" "list_all q n2"
      unfolding appends_def by blast
    then have "tr' = tr @ (n1 @ n2) \<and> list_all q (n1 @ n2)" using n1 by simp
    then show ?thesis by blast
  qed
qed

lemma appends_if: "appends q x \<Longrightarrow> appends q y \<Longrightarrow> appends q (if b then x else y)"
  by simp

lemmas appends_intros = appends_andThen appends_result appends_raise appends_lift
  appends_logInfo appends_call appends_if

lemma appendsD:
  "appends q act \<Longrightarrow> act (w, tr) = (r, w', tr') \<Longrightarrow> \<exists>new. tr' = tr @ new \<and> list_all q new"
  unfolding appends_def by blast

lemma appends_migrate_iteration:
  "appends (\<lambda>e. e \<noteq> EvDisconnect) (migrate_iteration P m)"
  unfolding migrate_iteration_def Let_def
  by (intro appends_intros) simp_all

lemma appends_migrate_loop: "appends (\<lambda>e. e \<noteq> EvDisconnect) (migrate_loop P ms)"
  by (induction ms) (auto intro!: appends_intros appends_migrate_iteration)

lemma extends_migrate_iteration: "appends (\<lambda>e. True) (migrate_iteration P m)"
  unfolding migrate_iteration_def Let_def
  by (intro appends_intros) simp_all

lemma extends_migrate_loop: "appends (\<lambda>e. True) (migrate_loop P ms)"
  by (induction ms) (auto intro!: appends_intros extends_migrate_iteration)

lemma extends_migrate_finish: "appends (\<lambda>e. True) (migrate_finish P ms dms)"
  unfolding migrate_finish_def
  by (cases "at_last ms") (auto intro!: appends_intros)

lemma extends_rest:
  "appends (\<lambda>e. True) (andThen (migrate_loop P post) (\<lambda>u. migrate_finish P ms dms))"
  by (intro appends_andThen extends_migrate_loop extends_migrate_finish)

text \<open>Every pass begins with the test for the history table.\<close>

lemma andThen_call_first:
  assumes k: "\<And>a. appends q (k a)"
    and run: "andThen (call ev f) k (w, tr) = (r, w', tr')"
  shows "\<exists>more. tr' = tr @ ev # more"
proof -
  obtain r0 w1 where f: "f w = (r0, w1)" by (cases "f w") auto
  show ?thesis
  proof (cases r0)
    case (Inl e)
    then have "tr' = tr @ [ev]" using run f by (simp add: andThen_def call_def)
    then show ?thesis by simp
  next
    case (Inr a)
    then have "k a (w1, tr @ [ev]) = (r, w', tr')" using run f by (simp add: andThen_def call_def)
    from appendsD [OF k this] obtain new where "tr' = (tr @ [ev]) @ new" by blast
    then show ?thesis by simp
  qed
qed

lemma migrate_iteration_first:
  assumes "migrate_iteration P m (w, tr) = (r, w', tr')"
  shows "\<exists>more. tr' = tr @ EvIsPrismaMigrationsTableExists # more"
  using assms unfolding migrate_iteration_def Let_def
  by (rule andThen_call_first [where q = "\<lambda>e. True", rotated])
     (intro appends_intros; simp)

text \<open>
  What follows a pass, the later passes and the end of the operation, never begins with a
  log line.
\<close>

lemma rest_not_log:
  assumes "andThen (migrate_loop P post) (\<lambda>u. migrate_finish P ms dms) (w, tr) = (r, w', tr')"
  shows "\<exists>new. tr' = tr @ new \<and> (new = [] \<or> (\<forall>msg. hd new \<noteq> EvLogInfo msg))"
proof (cases post)
  case Nil
  then have "migrate_finish P ms dms (w, tr) = (r, w', tr')"
    using assms by (simp add: andThen_def result_def)
  then show ?thesis
    by (cases "at_last ms")
       (auto simp: migrate_finish_def andThen_def call_def result_def raise_def
             split: prod.splits sum.splits if_splits)
next
  case (Cons p ps)
  obtain r1 w1 tr1 where it: "migrate_iteration P p (w, tr) = (r1, w1, tr1)"
    by (cases "migrate_iteration P p (w, tr)") auto
  from migrate_iteration_first [OF it] obtain more where
    tr1: "tr1 = tr @ EvIsPrismaMigrationsTableExists # more" by blast
  show ?thesis
  proof (cases r1)
    case (Inl e)
    then have "tr' = tr1" using assms Cons it by (simp add: andThen_def)
    then show ?thesis using tr1 by simp
  next
    case (Inr u)
    then have "andThen (migrate_loop P ps) (\<lambda>u. migrate_finish P ms dms) (w1, tr1) = (r, w', tr')"
      using assms Cons it by (simp add: andThen_def)
    from appendsD [OF extends_rest this] obtain new where "tr' = tr1 @ new" by blast
    then have "tr' = tr @ (EvIsPrismaMigrationsTableExists # more @ new)" using tr1 by simp
    then show ?thesis
      by (intro exI [of _ "EvIsPrismaMigrationsTableExists # more @ new"]) simp
  qed
qed

lemma migrate_loop_append:
  "migrate_loop P (xs @ ys) s = andThen (migrate_loop P xs) (\<lambda>u. migrate_loop P ys) s"
proof (induction xs arbitrary: s)
  case Nil
  then show ?case by (simp add: andThen_def result_def)
next
  case (Cons x xs)
  show ?case
    by (cases "migrate_iteration P x s" rule: prod_cases3)
       (auto simp: andThen_def Cons.IH split: sum.splits)
qed

text \<open>A run whose connection is established goes on with the loop and the end.\<close>

lemma migrate_established:
  assumes "established P t w entries wc"
    and "ms = selectMigrations (filter (isMigration P) entries) t i"
  shows "migrate P t i (w, tr) =
           andThen (migrate_loop P (filter (isMigrationWithPostScript P) ms))
             (\<lambda>u. migrate_finish P ms (filter (isMigrationWithPostScript P) ms))
             (wc, tr @ [EvConnect])"
proof -
  have v: "(case truthy t of
              Some t \<Rightarrow> (case validateMigrationName P t of
                           Some e \<Rightarrow> raise e
                         | None \<Rightarrow> result ())
            | None \<Rightarrow> result ()) (w, tr) = (Inr (), w, tr)"
    using assms(1) by (auto simp: established_def result_def split: option.splits)
  obtain ds where ds: "readDataSource P = Inr ds" "db_connect P ds w = (Inr (), wc)"
    using assms(1) by (auto simp: established_def split: sum.splits)
  have rd: "readdirSync P = Inr entries"
    using assms(1) by (simp add: established_def)
  show ?thesis
    using v rd ds assms(2)
    by (simp add: migrate_def andThen_def lift_def call_def Let_def)
qed

text \<open>A run that gets to the pass for \<open>m\<close> goes on with that pass.\<close>

lemma migrate_reaches:
  assumes "reaches P t i w entries wc pre m post w0 tr0"
    and "ms = selectMigrations (filter (isMigration P) entries) t i"
  shows "migrate P t i (w, []) =
           andThen (migrate_iteration P m)
             (\<lambda>u. andThen (migrate_loop P post) (\<lambda>u. migrate_finish P ms (pre @ m # post)))
             (w0, tr0)"
proof -
  have e: "established P t w entries wc"
    and d: "filter (isMigrationWithPostScript P) ms = pre @ m # post"
    and l: "migrate_loop P pre (wc, [EvConnect]) = (Inr (), w0, tr0)"
    using assms by (simp_all add: reaches_def)
  have "migrate_loop P (pre @ m # post) (wc, [EvConnect]) = migrate_loop P (m # post) (w0, tr0)"
    using l by (simp add: migrate_loop_append [of P pre "m # post"] andThen_def)
  then show ?thesis
    using migrate_established [OF e assms(2), of "[]"] d
    by (cases "migrate_iteration P m (w0, tr0)" rule: prod_cases3)
       (auto simp: andThen_def split: sum.splits)
qed

lemma reaches_no_disconnect:
  assumes "reaches P t i w entries wc pre m post w0 tr0"
  shows "EvDisconnect \<notin> set tr0"
proof -
  have "migrate_loop P pre (wc, [EvConnect]) = (Inr (), w0, tr0)"
    using assms by (simp add: reaches_def)
  from appendsD [OF appends_migrate_loop this] obtain new where
    "tr0 = [EvConnect] @ new" "list_all (\<lambda>e. e \<noteq> EvDisconnect) new" by blast
  then show ?thesis by (auto simp: list_all_iff)
qed

section \<open>The post-script policy\<close>

text \<open>
  Claim C1. Take a run of the operation that gets to the pass for a post-script-bearing
  migration \<open>m\<close> of the slice, the passes for the ones before it, in order, having returned.
  Let \<open>before\<close> be the step count sampled before the engine call (zero when the history
  table does not exist or has no row for \<open>m\<close>) and \<open>after\<close> the step count sampled after
  it. The run makes the sampling calls and the engine call of the pass; the two calls that
  follow them are the log line and the post-script of \<open>m\<close> if and only if
  \<open>after = before + 1\<close>. In that case the run fails with the error of the post-script if it
  throws and else goes on with the migrations after \<open>m\<close>; in every other case (a delta of
  zero, a delta above one) it goes on with them at once, the post-script of \<open>m\<close> not run.
\<close>

theorem post_script_iff_delta_one:
  assumes "reaches P t i w entries wc pre m post w0 tr0"
    and "ms = selectMigrations (filter (isMigration P) entries) t i"
    and "db_isPrismaMigrationsTableExists P w0 = (Inr ex, w1)"
    and "if ex then db_getMigrationByName P m w1 = (Inr mig, w2) else w2 = w1"
    and "migrateTo P m w2 = (Inr (), w3)"
    and "db_getMigrationByName P m w3 = (Inr newMig, w4)"
    and "before = (if ex then (case mig of None \<Rightarrow> 0 | Some row \<Rightarrow> applied_steps_count row) else 0)"
    and "after = (case newMig of None \<Rightarrow> 0 | Some row \<Rightarrow> applied_steps_count row)"
    and "sampled = tr0 @ [EvIsPrismaMigrationsTableExists] @
                   (if ex then [EvGetMigrationByName m] else []) @
                   [EvMigrateTo m, EvGetMigrationByName m]"
    and "script = [EvLogInfo (''Executing post-migrate script for migration: '' @ m),
                   EvRunPostScript (getMigrationPath P m)]"
    and "migrate P t i (w, []) = (r, w', tr')"
  shows "take (length sampled) tr' = sampled \<and>
         (take 2 (drop (length sampled) tr') = script \<longleftrightarrow> after = before + 1) \<and>
         (after = before + 1 \<longrightarrow>
            (r, w', tr') =
              (case runPostScript P (getMigrationPath P m) w4 of
                 (Inl e, w5) \<Rightarrow> (Inl e, w5, sampled @ script)
               | (Inr u, w5) \<Rightarrow>
                   andThen (migrate_loop P post) (\<lambda>u. migrate_finish P ms (pre @ m # post))
                     (w5, sampled @ script))) \<and>
         (after \<noteq> before + 1 \<longrightarrow>
            (r, w', tr') =
              andThen (migrate_loop P post) (\<lambda>u. migrate_finish P ms (pre @ m # post))
                (w4, sampled))"
proof -
  let ?rest = "andThen (migrate_loop P post) (\<lambda>u. migrate_finish P ms (pre @ m # post))"
  have b: "before = (if ex then appliedCount mig else 0)" and a: "after = appliedCount newMig"
    using assms(7,8) by (simp_all add: appliedCount_def)
  have run: "andThen (migrate_iteration P m) (\<lambda>u. ?rest) (w0, tr0) = (r, w', tr')"
    using migrate_reaches [OF assms(1,2)] assms(11) by simp
  note pass = migrate_iteration_sampled [OF assms(3-6), of tr0]
  show ?thesis
  proof (cases "after = before + 1")
    case True
    obtain rs w5 where rs: "runPostScript P (getMigrationPath P m) w4 = (rs, w5)"
      by (cases "runPostScript P (getMigrationPath P m) w4") auto
    have it: "migrate_iteration P m (w0, tr0) = (rs, w5, sampled @ script)"
      using pass True a b rs assms(9,10) by (simp add: Let_def)
    show ?thesis
    proof (cases rs)
      case (Inl e)
      then have "(r, w', tr') = (Inl e, w5, sampled @ script)"
        using run it by (simp add: andThen_def)
      then show ?thesis using True rs Inl assms(10) by simp
    next
      case (Inr u)
      then have rest: "?rest (w5, sampled @ script) = (r, w', tr')"
        using run it by (simp add: andThen_def)
      from appendsD [OF extends_rest rest] obtain new where "tr' = (sampled @ script) @ new"
        by blast
      then have "take (length sampled) tr' = sampled \<and> take 2 (drop (length sampled) tr') = script"
        using assms(10) by simp
      then show ?thesis using True rs Inr rest by simp
    qed
  next
    case False
    have it: "migrate_iteration P m (w0, tr0) = (Inr (), w4, sampled)"
      using pass False a b assms(9) by (simp add: Let_def)
    then have rest: "?rest (w4, sampled) = (r, w', tr')"
      using run by (simp add: andThen_def)
    from rest_not_log [OF rest] obtain new where
      new: "tr' = sampled @ new" "new = [] \<or> (\<forall>msg. hd new \<noteq> EvLogInfo msg)"
      by blast
    have "take 2 new \<noteq> script"
    proof (cases new)
      case Nil
      then show ?thesis using assms(10) by simp
    next
      case (Cons x xs)
      then show ?thesis using new(2) assms(10) by (cases xs) auto
    qed
    then show ?thesis using False new(1) rest by simp
  qed
qed

text \<open>
  The run for the target \<^verbatim>\<open>002_add_col\<close>, included, on a history that holds 3 steps for it:
  before 3, after 4, and the post-script of the migration runs.
\<close>

theorem post_script_iff_delta_one_witness:
  "take (length [EvConnect, EvIsPrismaMigrationsTableExists, EvGetMigrationByName ''002_add_col'',
                 EvMigrateTo ''002_add_col'', EvGetMigrationByName ''002_add_col''])
     [EvConnect, EvIsPrismaMigrationsTableExists, EvGetMigrationByName ''002_add_col'',
      EvMigrateTo ''002_add_col'', EvGetMigrationByName ''002_add_col'',
      EvLogInfo ''Executing post-migrate script for migration: 002_add_col'',
      EvRunPostScript ''/app/prisma/migrations/002_add_col'', EvDisconnect] =
     [EvConnect, EvIsPrismaMigrationsTableExists, EvGetMigrationByName ''002_add_col'',
      EvMigrateTo ''002_add_col'', EvGetMigrationByName ''002_add_col''] \<and>
   (take 2 (drop (length [EvConnect, EvIsPrismaMigrationsTableExists,
                          EvGetMigrationByName ''002_add_col'', EvMigrateTo ''002_add_col'',
                          EvGetMigrationByName ''002_add_col''])
      [EvConnect, EvIsPrismaMigrationsTableExists, EvGetMigrationByName ''002_add_col'',
       EvMigrateTo ''002_add_col'', EvGetMigrationByName ''002_add_col'',
       EvLogInfo ''Executing post-migrate script for migration: 002_add_col'',
       EvRunPostScript ''/app/prisma/migrations/002_add_col'', EvDisconnect]) =
      [EvLogInfo ''Executing post-migrate script for migration: 002_add_col'',
       EvRunPostScript ''/app/prisma/migrations/002_add_col'']) =
     ((4 :: int) = 3 + 1)"
proof -
  let ?n = "''002_add_col''"
  let ?entries = "[''001_init'', ''002_add_col'', ''003_seed'']"
  let ?w = "db_with [(?n, 3)]"
  let ?wc = "\<lparr>db_connected = True, history = Some [(?n, 3)]\<rparr>"
  let ?w3 = "\<lparr>db_connected = True, history = Some [(?n, 4)]\<rparr>"
  let ?row3 = "\<lparr>migration_name = ?n, applied_steps_count = 3\<rparr>"
  let ?row4 = "\<lparr>migration_name = ?n, applied_steps_count = 4\<rparr>"
  let ?sampled = "[EvConnect, EvIsPrismaMigrationsTableExists, EvGetMigrationByName ?n,
                   EvMigrateTo ?n, EvGetMigrationByName ?n]"
  let ?script = "[EvLogInfo ''Executing post-migrate script for migration: 002_add_col'',
                  EvRunPostScript ''/app/prisma/migrations/002_add_col'']"
  have h1: "reaches spec_example (Some ?n) True ?w ?entries ?wc [] ?n [] ?wc [EvConnect]"
    by code_simp
  have h2: "[''001_init'', ?n] = selectMigrations (filter (isMigration spec_example) ?entries)
              (Some ?n) True"
    by code_simp
  have h3: "db_isPrismaMigrationsTableExists spec_example ?wc = (Inr True, ?wc)"
    by code_simp
  have h4: "if True then db_getMigrationByName spec_example ?n ?wc = (Inr (Some ?row3), ?wc)
            else ?wc = ?wc"
    by code_simp
  have h5: "migrateTo spec_example ?n ?wc = (Inr (), ?w3)"
    by code_simp
  have h6: "db_getMigrationByName spec_example ?n ?w3 = (Inr (Some ?row4), ?w3)"
    by code_simp
  have h7: "(3 :: int) = (if True then (case Some ?row3 of None \<Rightarrow> 0
                                        | Some row \<Rightarrow> applied_steps_count row) else 0)"
    by simp
  have h8: "(4 :: int) = (case Some ?row4 of None \<Rightarrow> 0 | Some row \<Rightarrow> applied_steps_count row)"
    by simp
  have h9: "?sampled = [EvConnect] @ [EvIsPrismaMigrationsTableExists] @
              (if True then [EvGetMigrationByName ?n] else []) @
              [EvMigrateTo ?n, EvGetMigrationByName ?n]"
    by simp
  have h10: "?script = [EvLogInfo (''Executing post-migrate script for migration: '' @ ?n),
                        EvRunPostScript (getMigrationPath spec_example ?n)]"
    by code_simp
  have h11: "migrate spec_example (Some ?n) True (?w, []) =
               (Inr (), db_with [(?n, 4)], ?sampled @ ?script @ [EvDisconnect])"
    by code_simp
  show ?thesis
    using post_script_iff_delta_one [OF h1 h2 h3 h4 h5 h6 h7 h8 h9 h10 h11] by simp
qed

text \<open>
  Claim C8, as the code has it. The code has no check of the sign of the delta and no
  integrity fault: when the count sampled after the engine call is below the count sampled
  before it, the pass runs no post-script, raises nothing and hands on to the next pass.
\<close>

theorem negative_delta_is_skipped:
  assumes "db_isPrismaMigrationsTableExists P w = (Inr ex, w1)"
    and "if ex then db_getMigrationByName P m w1 = (Inr mig, w2) else w2 = w1"
    and "migrateTo P m w2 = (Inr (), w3)"
    and "db_getMigrationByName P m w3 = (Inr newMig, w4)"
    and "appliedCount newMig < (if ex then appliedCount mig else 0)"
  shows "migrate_iteration P m (w, tr) =
           (Inr (), w4, tr @ [EvIsPrismaMigrationsTableExists] @
                         (if ex then [EvGetMigrationByName m] else []) @
                         [EvMigrateTo m, EvGetMigrationByName m])"
  using migrate_iteration_sampled [OF assms(1-4), of tr] assms(5)
  by (simp add: Let_def)

theorem negative_delta_is_skipped_witness:
  "migrate_iteration regressing_example ''002_add_col'' (db_with [(''002_add_col'', 3)], []) =
     (Inr (), db_with [(''002_add_col'', 2)],
      [EvIsPrismaMigrationsTableExists, EvGetMigrationByName ''002_add_col'',
       EvMigrateTo ''002_add_col'', EvGetMigrationByName ''002_add_col''])"
proof -
  let ?n = "''002_add_col''"
  let ?w = "db_with [(?n, 3)]" and ?w' = "db_with [(?n, 2)]"
  let ?row3 = "\<lparr>migration_name = ?n, applied_steps_count = 3\<rparr>"
  let ?row2 = "\<lparr>migration_name = ?n, applied_steps_count = 2\<rparr>"
  have h1: "db_isPrismaMigrationsTableExists regressing_example ?w = (Inr True, ?w)"
    by code_simp
  have h2: "if True then db_getMigrationByName regressing_example ?n ?w = (Inr (Some ?row3), ?w)
            else ?w = ?w"
    by code_simp
  have h3: "migrateTo regressing_example ?n ?w = (Inr (), ?w')"
    by code_simp
  have h4: "db_getMigrationByName regressing_example ?n ?w' = (Inr (Some ?row2), ?w')"
    by code_simp
  have h5: "appliedCount (Some ?row2) < (if True then appliedCount (Some ?row3) else 0)"
    by code_simp
  show ?thesis
    using negative_delta_is_skipped [OF h1 h2 h3 h4 h5, of "[]"] by simp
qed

text \<open>
  The history row of \<^verbatim>\<open>002_add_col\<close> holds 3 steps before the engine call and 2 after it,
  and the whole run ends normally, with the disconnect as its last call.
\<close>

theorem negative_delta_counterexample:
  "fst (db_getMigrationByName regressing_example ''002_add_col'' (db_with [(''002_add_col'', 3)])) =
     Inr (Some \<lparr>migration_name = ''002_add_col'', applied_steps_count = 3\<rparr>) \<and>
   migrate regressing_example (Some ''002_add_col'') True (db_with [(''002_add_col'', 3)], []) =
     (Inr (), db_with [(''002_add_col'', 2)],
      [EvConnect, EvIsPrismaMigrationsTableExists, EvGetMigrationByName ''002_add_col'',
       EvMigrateTo ''002_add_col'', EvGetMigrationByName ''002_add_col'', EvDisconnect])"
  by code_simp

section \<open>After the loop: the catch-up call\<close>

lemma at_last_filter:
  "(at_last (filter hp ms) \<noteq> at_last ms) = (ms \<noteq> [] \<and> \<not> hp (last ms))"
proof (cases ms rule: rev_cases)
  case Nil
  then show ?thesis by (simp add: at_last_def)
next
  case (snoc xs x)
  show ?thesis
  proof (cases "hp x")
    case True
    then show ?thesis using snoc by (simp add: at_last_def)
  next
    case False
    have "last (filter hp xs) \<noteq> x" if "filter hp xs \<noteq> []"
    proof -
      have "last (filter hp xs) \<in> set (filter hp xs)" using that by (rule last_in_set)
      then have "hp (last (filter hp xs))" by simp
      then show ?thesis using False by auto
    qed
    then show ?thesis using snoc False by (auto simp: at_last_def)
  qed
qed

lemma migrate_finish_unfold:
  "migrate_finish P ms (filter (isMigrationWithPostScript P) ms) (w, tr) =
     (if ms \<noteq> [] \<and> \<not> isMigrationWithPostScript P (last ms)
      then (case migrateTo P (last ms) w of
              (Inl e, w1) \<Rightarrow> (Inl e, w1, tr @ [EvMigrateTo (last ms)])
            | (Inr u, w1) \<Rightarrow>
                (case db_disconnect P w1 of
                   (r, w2) \<Rightarrow> (r, w2, tr @ [EvMigrateTo (last ms), EvDisconnect])))
      else (case db_disconnect P w of (r, w2) \<Rightarrow> (r, w2, tr @ [EvDisconnect])))"
proof (cases "ms \<noteq> [] \<and> \<not> isMigrationWithPostScript P (last ms)")
  case True
  then have "at_last (filter (isMigrationWithPostScript P) ms) \<noteq> at_last ms"
    by (simp add: at_last_filter)
  moreover have "at_last ms = Some (last ms)" using True by (simp add: at_last_def)
  ultimately show ?thesis using True
    by (simp add: migrate_finish_def action_defs split: prod.splits sum.splits)
next
  case False
  then have "\<not> at_last (filter (isMigrationWithPostScript P) ms) \<noteq> at_last ms"
    using at_last_filter [of "isMigrationWithPostScript P" ms] by blast
  then show ?thesis using False
    by (simp add: migrate_finish_def action_defs split: prod.splits sum.splits)
qed




section \<open>The connection\<close>

lemma migrate_finish_outcome:
  assumes "migrate_finish P ms dms (w, tr) = (r, w', tr')"
  shows "(\<exists>new w0. tr' = tr @ new @ [EvDisconnect] \<and> list_all (\<lambda>e. e \<noteq> EvDisconnect) new \<and>
            db_disconnect P w0 = (r, w')) \<or>
         (\<exists>e new. r = Inl e \<and> tr' = tr @ new \<and> list_all (\<lambda>e. e \<noteq> EvDisconnect) new)"
proof (cases "at_last dms \<noteq> at_last ms")
  case False
  then show ?thesis using assms
    by (auto simp: migrate_finish_def action_defs split: prod.splits)
next
  case True
  show ?thesis
  proof (cases "at_last ms")
    case None
    then show ?thesis using assms True
      by (auto simp: migrate_finish_def action_defs split: prod.splits)
  next
    case (Some l)
    obtain r1 w1 where e: "migrateTo P l w = (r1, w1)" by (cases "migrateTo P l w") auto
    show ?thesis
    proof (cases r1)
      case (Inl x)
      then have "r = Inl x \<and> tr' = tr @ [EvMigrateTo l]" using assms True Some e
        by (auto simp: migrate_finish_def action_defs split: prod.splits)
      then show ?thesis by auto
    next
      case (Inr u)
      then have "db_disconnect P w1 = (r, w') \<and> tr' = tr @ [EvMigrateTo l] @ [EvDisconnect]"
        using assms True Some e
        by (auto simp: migrate_finish_def action_defs split: prod.splits)
      then show ?thesis by auto
    qed
  qed
qed

text \<open>
  A run either reaches the disconnect, which is then its last call and decides its outcome,
  or fails before it and never calls it.
\<close>

lemma migrate_outcome:
  assumes run: "migrate P t i (w, []) = (r, w', tr)"
  shows "(\<exists>pre w0. tr = pre @ [EvDisconnect] \<and> list_all (\<lambda>e. e \<noteq> EvDisconnect) pre \<and>
            EvConnect \<in> set pre \<and> db_disconnect P w0 = (r, w')) \<or>
         ((\<exists>e. r = Inl e) \<and> list_all (\<lambda>e. e \<noteq> EvDisconnect) tr)"
proof -
  define v where "v = (case truthy t of
                Some t \<Rightarrow> (case validateMigrationName P t of
                             Some e \<Rightarrow> Some e
                           | None \<Rightarrow> None)
              | None \<Rightarrow> None)"
  show ?thesis
  proof (cases v)
    case (Some e)
    then have "migrate P t i (w, []) = (Inl e, w, [])"
      by (auto simp: v_def migrate_def action_defs split: option.splits)
    then show ?thesis using run by simp
  next
    case None
    then have ok: "(case truthy t of
                Some t \<Rightarrow> (case validateMigrationName P t of
                             Some e \<Rightarrow> raise e
                           | None \<Rightarrow> result ())
              | None \<Rightarrow> result ()) (w, []) = (Inr (), w, [])"
      by (auto simp: v_def action_defs split: option.splits)
    show ?thesis
    proof (cases "readdirSync P")
      case (Inl e)
      then have "migrate P t i (w, []) = (Inl e, w, [])"
        using ok by (simp add: migrate_def andThen_def lift_def)
      then show ?thesis using run by simp
    next
      case (Inr entries)
      note rd = this
      let ?ms = "selectMigrations (filter (isMigration P) entries) t i"
      let ?dms = "filter (isMigrationWithPostScript P) ?ms"
      show ?thesis
      proof (cases "readDataSource P")
        case (Inl e)
        then have "migrate P t i (w, []) = (Inl e, w, [])"
          using ok rd by (simp add: migrate_def andThen_def lift_def Let_def)
        then show ?thesis using run by simp
      next
        case (Inr ds)
        note src = this
        obtain rc wc where c: "db_connect P ds w = (rc, wc)" by (cases "db_connect P ds w") auto
        show ?thesis
        proof (cases rc)
          case (Inl e)
          then have "migrate P t i (w, []) = (Inl e, wc, [EvConnect])"
            using ok rd src c by (simp add: migrate_def andThen_def lift_def call_def Let_def)
          then show ?thesis using run by auto
        next
          case (Inr u)
          then have m: "migrate P t i (w, []) =
                   andThen (migrate_loop P ?dms) (\<lambda>u. migrate_finish P ?ms ?dms) (wc, [EvConnect])"
            using ok rd src c by (simp add: migrate_def andThen_def lift_def call_def Let_def)
          obtain rl wl trl where l: "migrate_loop P ?dms (wc, [EvConnect]) = (rl, wl, trl)"
            by (cases "migrate_loop P ?dms (wc, [EvConnect])") auto
          from appends_migrate_loop [of P ?dms] l obtain nl where
            nl: "trl = [EvConnect] @ nl" "list_all (\<lambda>e. e \<noteq> EvDisconnect) nl"
            unfolding appends_def by blast
          show ?thesis
          proof (cases rl)
            case (Inl e)
            then have "r = Inl e \<and> tr = trl" using m l run by (simp add: andThen_def)
            then show ?thesis using nl by auto
          next
            case (Inr u2)
            then have "migrate_finish P ?ms ?dms (wl, trl) = (r, w', tr)"
              using m l run by (simp add: andThen_def)
            from migrate_finish_outcome [OF this] show ?thesis
              using nl by (elim disjE exE conjE) (auto simp: list_all_iff)
          qed
        qed
      qed
    qed
  qed
qed

text \<open>A pass fails with the error of the first of its calls that throws.\<close>

lemma migrate_iteration_table_fails:
  assumes "db_isPrismaMigrationsTableExists P w = (Inl e, w1)"
  shows "migrate_iteration P m (w, tr) = (Inl e, w1, tr @ [EvIsPrismaMigrationsTableExists])"
  using assms by (simp add: migrate_iteration_def andThen_def call_def)

lemma migrate_iteration_before_fails:
  assumes "db_isPrismaMigrationsTableExists P w = (Inr True, w1)"
    and "db_getMigrationByName P m w1 = (Inl e, w2)"
  shows "migrate_iteration P m (w, tr) =
           (Inl e, w2, tr @ [EvIsPrismaMigrationsTableExists, EvGetMigrationByName m])"
  using assms by (simp add: migrate_iteration_def andThen_def call_def)

lemma migrate_iteration_engine_fails:
  assumes "db_isPrismaMigrationsTableExists P w = (Inr ex, w1)"
    and "if ex then db_getMigrationByName P m w1 = (Inr mig, w2) else w2 = w1"
    and "migrateTo P m w2 = (Inl e, w3)"
  shows "migrate_iteration P m (w, tr) =
           (Inl e, w3, tr @ [EvIsPrismaMigrationsTableExists] @
                        (if ex then [EvGetMigrationByName m] else []) @ [EvMigrateTo m])"
  using assms
  by (cases ex) (simp_all add: migrate_iteration_def andThen_def call_def result_def Let_def)

lemma migrate_iteration_after_fails:
  assumes "db_isPrismaMigrationsTableExists P w = (Inr ex, w1)"
    and "if ex then db_getMigrationByName P m w1 = (Inr mig, w2) else w2 = w1"
    and "migrateTo P m w2 = (Inr (), w3)"
    and "db_getMigrationByName P m w3 = (Inl e, w4)"
  shows "migrate_iteration P m (w, tr) =
           (Inl e, w4, tr @ [EvIsPrismaMigrationsTableExists] @
                        (if ex then [EvGetMigrationByName m] else []) @
                        [EvMigrateTo m, EvGetMigrationByName m])"
  using assms
  by (cases ex) (simp_all add: migrate_iteration_def andThen_def call_def result_def Let_def)

lemma migrate_iteration_script_fails:
  assumes "db_isPrismaMigrationsTableExists P w = (Inr ex, w1)"
    and "if ex then db_getMigrationByName P m w1 = (Inr mig, w2) else w2 = w1"
    and "migrateTo P m w2 = (Inr (), w3)"
    and "db_getMigrationByName P m w3 = (Inr newMig, w4)"
    and "(if ex then appliedCount mig else 0) + 1 = appliedCount newMig"
    and "runPostScript P (getMigrationPath P m) w4 = (Inl e, w5)"
  shows "migrate_iteration P m (w, tr) =
           (Inl e, w5, tr @ [EvIsPrismaMigrationsTableExists] @
                        (if ex then [EvGetMigrationByName m] else []) @
                        [EvMigrateTo m, EvGetMigrationByName m,
                         EvLogInfo (''Executing post-migrate script for migration: '' @ m),
                         EvRunPostScript (getMigrationPath P m)])"
  using migrate_iteration_sampled [OF assms(1-4), of tr] assms(5,6)
  by (simp add: Let_def)

lemma migrate_pass_fails:
  assumes "reaches P t i w entries wc pre m post w0 tr0"
    and "migrate_iteration P m (w0, tr0) = (Inl e, wx, trx)"
  shows "migrate P t i (w, []) = (Inl e, wx, trx)"
  using migrate_reaches [OF assms(1) refl] assms(2) by (simp add: andThen_def)

lemma migrate_catch_up_fails:
  assumes e: "established P t w entries wc"
    and m: "ms = selectMigrations (filter (isMigration P) entries) t i"
    and l: "migrate_loop P (filter (isMigrationWithPostScript P) ms) (wc, [EvConnect]) =
              (Inr (), wl, trl)"
    and c: "at_last (filter (isMigrationWithPostScript P) ms) \<noteq> at_last ms"
    and f: "migrateTo P (last ms) wl = (Inl e', w2)"
  shows "migrate P t i (w, []) = (Inl e', w2, trl @ [EvMigrateTo (last ms)]) \<and>
         EvDisconnect \<notin> set (trl @ [EvMigrateTo (last ms)])"
proof -
  have "migrate P t i (w, []) =
          migrate_finish P ms (filter (isMigrationWithPostScript P) ms) (wl, trl)"
    unfolding migrate_established [OF e m, of "[]"] using l by (simp add: andThen_def)
  moreover have "ms \<noteq> [] \<and> \<not> isMigrationWithPostScript P (last ms)"
    using c at_last_filter [of "isMigrationWithPostScript P" ms] by blast
  ultimately have run: "migrate P t i (w, []) = (Inl e', w2, trl @ [EvMigrateTo (last ms)])"
    using f by (simp add: migrate_finish_unfold)
  from appendsD [OF appends_migrate_loop l] obtain new where
    "trl = [EvConnect] @ new" "list_all (\<lambda>e. e \<noteq> EvDisconnect) new" by blast
  then have "EvDisconnect \<notin> set trl" by (auto simp: list_all_iff)
  then show ?thesis using run by simp
qed

text \<open>
  Claim C2, as the code has it. The disconnect is the last statement of the operation and
  nothing catches a failure before it. A run that ends normally has connected and has called
  the disconnect as its last call; no run calls it more than once; when it is called it is the
  last call of the run and its outcome is the outcome of the run. When, in a run that has
  established the connection, a step throws (the test for the history table, the sampling
  before or after the engine call, the engine call of a pass, the post-script, or the catch-up
  engine call after the loop), the run fails with the error of that step, that call is its
  last, and it has not called the disconnect.
\<close>

theorem disconnect_only_at_the_end:
  "(migrate P t i (w, []) = (r, w', tr) \<longrightarrow>
      (r = Inr () \<longrightarrow> EvConnect \<in> set tr \<and> last tr = EvDisconnect) \<and>
      count_list tr EvDisconnect \<le> 1 \<and>
      (EvDisconnect \<in> set tr \<longrightarrow>
         last tr = EvDisconnect \<and> (\<exists>wd. db_disconnect P wd = (r, w')))) \<and>
   (reaches P t i w entries wc pre m post w0 tr0 \<longrightarrow>
      EvDisconnect \<notin> set tr0 \<and>
      (db_isPrismaMigrationsTableExists P w0 = (Inl e, w1) \<longrightarrow>
         migrate P t i (w, []) = (Inl e, w1, tr0 @ [EvIsPrismaMigrationsTableExists])) \<and>
      (db_isPrismaMigrationsTableExists P w0 = (Inr True, w1) \<and>
       db_getMigrationByName P m w1 = (Inl e, w2) \<longrightarrow>
         migrate P t i (w, []) =
           (Inl e, w2, tr0 @ [EvIsPrismaMigrationsTableExists, EvGetMigrationByName m])) \<and>
      (db_isPrismaMigrationsTableExists P w0 = (Inr ex, w1) \<and>
       (if ex then db_getMigrationByName P m w1 = (Inr mig, w2) else w2 = w1) \<longrightarrow>
         (migrateTo P m w2 = (Inl e, w3) \<longrightarrow>
            migrate P t i (w, []) =
              (Inl e, w3, tr0 @ [EvIsPrismaMigrationsTableExists] @
                           (if ex then [EvGetMigrationByName m] else []) @ [EvMigrateTo m])) \<and>
         (migrateTo P m w2 = (Inr (), w3) \<and> db_getMigrationByName P m w3 = (Inl e, w4) \<longrightarrow>
            migrate P t i (w, []) =
              (Inl e, w4, tr0 @ [EvIsPrismaMigrationsTableExists] @
                           (if ex then [EvGetMigrationByName m] else []) @
                           [EvMigrateTo m, EvGetMigrationByName m])) \<and>
         (migrateTo P m w2 = (Inr (), w3) \<and> db_getMigrationByName P m w3 = (Inr newMig, w4) \<and>
          (if ex then appliedCount mig else 0) + 1 = appliedCount newMig \<and>
          runPostScript P (getMigrationPath P m) w4 = (Inl e, w5) \<longrightarrow>
            migrate P t i (w, []) =
              (Inl e, w5, tr0 @ [EvIsPrismaMigrationsTableExists] @
                           (if ex then [EvGetMigrationByName m] else []) @
                           [EvMigrateTo m, EvGetMigrationByName m,
                            EvLogInfo (''Executing post-migrate script for migration: '' @ m),
                            EvRunPostScript (getMigrationPath P m)])))) \<and>
   (established P t w entries wc \<and>
    ms = selectMigrations (filter (isMigration P) entries) t i \<and>
    migrate_loop P (filter (isMigrationWithPostScript P) ms) (wc, [EvConnect]) = (Inr (), wl, trl) \<and>
    at_last (filter (isMigrationWithPostScript P) ms) \<noteq> at_last ms \<and>
    migrateTo P (last ms) wl = (Inl e, w2) \<longrightarrow>
      migrate P t i (w, []) = (Inl e, w2, trl @ [EvMigrateTo (last ms)]) \<and>
      EvDisconnect \<notin> set (trl @ [EvMigrateTo (last ms)]))"
proof -
  have no: "count_list xs EvDisconnect = 0 \<and> EvDisconnect \<notin> set xs"
    if "list_all (\<lambda>e. e \<noteq> EvDisconnect) xs" for xs
    using that by (induction xs) auto
  have A: "migrate P t i (w, []) = (r, w', tr) \<longrightarrow>
      (r = Inr () \<longrightarrow> EvConnect \<in> set tr \<and> last tr = EvDisconnect) \<and>
      count_list tr EvDisconnect \<le> 1 \<and>
      (EvDisconnect \<in> set tr \<longrightarrow>
         last tr = EvDisconnect \<and> (\<exists>wd. db_disconnect P wd = (r, w')))"
  proof
    assume run: "migrate P t i (w, []) = (r, w', tr)"
    from migrate_outcome [OF run]
    show "(r = Inr () \<longrightarrow> EvConnect \<in> set tr \<and> last tr = EvDisconnect) \<and>
      count_list tr EvDisconnect \<le> 1 \<and>
      (EvDisconnect \<in> set tr \<longrightarrow>
         last tr = EvDisconnect \<and> (\<exists>wd. db_disconnect P wd = (r, w')))"
    proof (elim disjE exE conjE)
      fix pre w0
      assume "tr = pre @ [EvDisconnect]" "list_all (\<lambda>e. e \<noteq> EvDisconnect) pre"
        "EvConnect \<in> set pre" "db_disconnect P w0 = (r, w')"
      then show ?thesis using no [of pre] by auto
    next
      fix e
      assume "r = Inl e" "list_all (\<lambda>e. e \<noteq> EvDisconnect) tr"
      then show ?thesis using no [of tr] by auto
    qed
  qed
  have B: "reaches P t i w entries wc pre m post w0 tr0 \<longrightarrow>
      EvDisconnect \<notin> set tr0 \<and>
      (db_isPrismaMigrationsTableExists P w0 = (Inl e, w1) \<longrightarrow>
         migrate P t i (w, []) = (Inl e, w1, tr0 @ [EvIsPrismaMigrationsTableExists])) \<and>
      (db_isPrismaMigrationsTableExists P w0 = (Inr True, w1) \<and>
       db_getMigrationByName P m w1 = (Inl e, w2) \<longrightarrow>
         migrate P t i (w, []) =
           (Inl e, w2, tr0 @ [EvIsPrismaMigrationsTableExists, EvGetMigrationByName m])) \<and>
      (db_isPrismaMigrationsTableExists P w0 = (Inr ex, w1) \<and>
       (if ex then db_getMigrationByName P m w1 = (Inr mig, w2) else w2 = w1) \<longrightarrow>
         (migrateTo P m w2 = (Inl e, w3) \<longrightarrow>
            migrate P t i (w, []) =
              (Inl e, w3, tr0 @ [EvIsPrismaMigrationsTableExists] @
                           (if ex then [EvGetMigrationByName m] else []) @ [EvMigrateTo m])) \<and>
         (migrateTo P m w2 = (Inr (), w3) \<and> db_getMigrationByName P m w3 = (Inl e, w4) \<longrightarrow>
            migrate P t i (w, []) =
              (Inl e, w4, tr0 @ [EvIsPrismaMigrationsTableExists] @
                           (if ex then [EvGetMigrationByName m] else []) @
                           [EvMigrateTo m, EvGetMigrationByName m])) \<and>
         (migrateTo P m w2 = (Inr (), w3) \<and> db_getMigrationByName P m w3 = (Inr newMig, w4) \<and>
          (if ex then appliedCount mig else 0) + 1 = appliedCount newMig \<and>
          runPostScript P (getMigrationPath P m) w4 = (Inl e, w5) \<longrightarrow>
            migrate P t i (w, []) =
              (Inl e, w5, tr0 @ [EvIsPrismaMigrationsTableExists] @
                           (if ex then [EvGetMigrationByName m] else []) @
                           [EvMigrateTo m, EvGetMigrationByName m,
                            EvLogInfo (''Executing post-migrate script for migration: '' @ m),
                            EvRunPostScript (getMigrationPath P m)])))"
  proof
    assume re: "reaches P t i w entries wc pre m post w0 tr0"
    note fails = migrate_pass_fails [OF re]
    have b0: "EvDisconnect \<notin> set tr0"
      using re by (rule reaches_no_disconnect)
    have b1: "db_isPrismaMigrationsTableExists P w0 = (Inl e, w1) \<longrightarrow>
         migrate P t i (w, []) = (Inl e, w1, tr0 @ [EvIsPrismaMigrationsTableExists])"
      by (intro impI fails migrate_iteration_table_fails)
    have b2: "db_isPrismaMigrationsTableExists P w0 = (Inr True, w1) \<and>
       db_getMigrationByName P m w1 = (Inl e, w2) \<longrightarrow>
         migrate P t i (w, []) =
           (Inl e, w2, tr0 @ [EvIsPrismaMigrationsTableExists, EvGetMigrationByName m])"
    proof (intro impI, elim conjE)
      assume x: "db_isPrismaMigrationsTableExists P w0 = (Inr True, w1)"
        and y: "db_getMigrationByName P m w1 = (Inl e, w2)"
      show "migrate P t i (w, []) =
           (Inl e, w2, tr0 @ [EvIsPrismaMigrationsTableExists, EvGetMigrationByName m])"
        using fails [OF migrate_iteration_before_fails [OF x y]] .
    qed
    have b3: "(migrateTo P m w2 = (Inl e, w3) \<longrightarrow>
            migrate P t i (w, []) =
              (Inl e, w3, tr0 @ [EvIsPrismaMigrationsTableExists] @
                           (if ex then [EvGetMigrationByName m] else []) @ [EvMigrateTo m])) \<and>
         (migrateTo P m w2 = (Inr (), w3) \<and> db_getMigrationByName P m w3 = (Inl e, w4) \<longrightarrow>
            migrate P t i (w, []) =
              (Inl e, w4, tr0 @ [EvIsPrismaMigrationsTableExists] @
                           (if ex then [EvGetMigrationByName m] else []) @
                           [EvMigrateTo m, EvGetMigrationByName m])) \<and>
         (migrateTo P m w2 = (Inr (), w3) \<and> db_getMigrationByName P m w3 = (Inr newMig, w4) \<and>
          (if ex then appliedCount mig else 0) + 1 = appliedCount newMig \<and>
          runPostScript P (getMigrationPath P m) w4 = (Inl e, w5) \<longrightarrow>
            migrate P t i (w, []) =
              (Inl e, w5, tr0 @ [EvIsPrismaMigrationsTableExists] @
                           (if ex then [EvGetMigrationByName m] else []) @
                           [EvMigrateTo m, EvGetMigrationByName m,
                            EvLogInfo (''Executing post-migrate script for migration: '' @ m),
                            EvRunPostScript (getMigrationPath P m)]))"
      if s: "db_isPrismaMigrationsTableExists P w0 = (Inr ex, w1) \<and>
             (if ex then db_getMigrationByName P m w1 = (Inr mig, w2) else w2 = w1)"
    proof -
      have s1: "db_isPrismaMigrationsTableExists P w0 = (Inr ex, w1)"
        and s2: "if ex then db_getMigrationByName P m w1 = (Inr mig, w2) else w2 = w1"
        using s by blast+
      have c1: "migrate P t i (w, []) =
              (Inl e, w3, tr0 @ [EvIsPrismaMigrationsTableExists] @
                           (if ex then [EvGetMigrationByName m] else []) @ [EvMigrateTo m])"
        if "migrateTo P m w2 = (Inl e, w3)"
        using fails [OF migrate_iteration_engine_fails [OF s1 s2 that]] .
      have c2: "migrate P t i (w, []) =
              (Inl e, w4, tr0 @ [EvIsPrismaMigrationsTableExists] @
                           (if ex then [EvGetMigrationByName m] else []) @
                           [EvMigrateTo m, EvGetMigrationByName m])"
        if "migrateTo P m w2 = (Inr (), w3)" "db_getMigrationByName P m w3 = (Inl e, w4)"
        using fails [OF migrate_iteration_after_fails [OF s1 s2 that]] .
      have c3: "migrate P t i (w, []) =
              (Inl e, w5, tr0 @ [EvIsPrismaMigrationsTableExists] @
                           (if ex then [EvGetMigrationByName m] else []) @
                           [EvMigrateTo m, EvGetMigrationByName m,
                            EvLogInfo (''Executing post-migrate script for migration: '' @ m),
                            EvRunPostScript (getMigrationPath P m)])"
        if "migrateTo P m w2 = (Inr (), w3)" "db_getMigrationByName P m w3 = (Inr newMig, w4)"
           "(if ex then appliedCount mig else 0) + 1 = appliedCount newMig"
           "runPostScript P (getMigrationPath P m) w4 = (Inl e, w5)"
        using fails [OF migrate_iteration_script_fails [OF s1 s2 that]] .
      show ?thesis
        using c1 c2 c3 by blast
    qed
    show "EvDisconnect \<notin> set tr0 \<and>
      (db_isPrismaMigrationsTableExists P w0 = (Inl e, w1) \<longrightarrow>
         migrate P t i (w, []) = (Inl e, w1, tr0 @ [EvIsPrismaMigrationsTableExists])) \<and>
      (db_isPrismaMigrationsTableExists P w0 = (Inr True, w1) \<and>
       db_getMigrationByName P m w1 = (Inl e, w2) \<longrightarrow>
         migrate P t i (w, []) =
           (Inl e, w2, tr0 @ [EvIsPrismaMigrationsTableExists, EvGetMigrationByName m])) \<and>
      (db_isPrismaMigrationsTableExists P w0 = (Inr ex, w1) \<and>
       (if ex then db_getMigrationByName P m w1 = (Inr mig, w2) else w2 = w1) \<longrightarrow>
         (migrateTo P m w2 = (Inl e, w3) \<longrightarrow>
            migrate P t i (w, []) =
              (Inl e, w3, tr0 @ [EvIsPrismaMigrationsTableExists] @
                           (if ex then [EvGetMigrationByName m] else []) @ [EvMigrateTo m])) \<and>
         (migrateTo P m w2 = (Inr (), w3) \<and> db_getMigrationByName P m w3 = (Inl e, w4) \<longrightarrow>
            migrate P t i (w, []) =
              (Inl e, w4, tr0 @ [EvIsPrismaMigrationsTableExists] @
                           (if ex then [EvGetMigrationByName m] else []) @
                           [EvMigrateTo m, EvGetMigrationByName m])) \<and>
         (migrateTo P m w2 = (Inr (), w3) \<and> db_getMigrationByName P m w3 = (Inr newMig, w4) \<and>
          (if ex then appliedCount mig else 0) + 1 = appliedCount newMig \<and>
          runPostScript P (getMigrationPath P m) w4 = (Inl e, w5) \<longrightarrow>
            migrate P t i (w, []) =
              (Inl e, w5, tr0 @ [EvIsPrismaMigrationsTableExists] @
                           (if ex then [EvGetMigrationByName m] else []) @
                           [EvMigrateTo m, EvGetMigrationByName m,
                            EvLogInfo (''Executing post-migrate script for migration: '' @ m),
                            EvRunPostScript (getMigrationPath P m)])))"
      using b0 b1 b2 b3 by (intro conjI impI) blast+
  qed
  have C: "established P t w entries wc \<and>
    ms = selectMigrations (filter (isMigration P) entries) t i \<and>
    migrate_loop P (filter (isMigrationWithPostScript P) ms) (wc, [EvConnect]) = (Inr (), wl, trl) \<and>
    at_last (filter (isMigrationWithPostScript P) ms) \<noteq> at_last ms \<and>
    migrateTo P (last ms) wl = (Inl e, w2) \<longrightarrow>
      migrate P t i (w, []) = (Inl e, w2, trl @ [EvMigrateTo (last ms)]) \<and>
      EvDisconnect \<notin> set (trl @ [EvMigrateTo (last ms)])"
    using migrate_catch_up_fails [of P t w entries wc ms i wl trl e w2] by blast
  show ?thesis
    by (rule conjI, rule A, rule conjI, rule B, rule C)
qed

text \<open>
  A run that ends normally, and one failing run for each step that can throw once the
  connection is established: none of the failing runs calls the disconnect, and each leaves
  the database connected.
\<close>

theorem disconnect_only_at_the_end_witness:
  "last [EvConnect, EvIsPrismaMigrationsTableExists, EvMigrateTo ''002_add_col'',
         EvGetMigrationByName ''002_add_col'',
         EvLogInfo ''Executing post-migrate script for migration: 002_add_col'',
         EvRunPostScript ''/app/prisma/migrations/002_add_col'', EvDisconnect] = EvDisconnect \<and>
   migrate table_check_failing_example None True (fresh_db, []) =
     (Inl (External ''connection lost''), \<lparr>db_connected = True, history = None\<rparr>,
      [EvConnect, EvIsPrismaMigrationsTableExists]) \<and>
   migrate sampling_failing_example None True (db_with [(''002_add_col'', 3)], []) =
     (Inl (External ''connection lost''),
      \<lparr>db_connected = True, history = Some [(''002_add_col'', 3)]\<rparr>,
      [EvConnect, EvIsPrismaMigrationsTableExists, EvGetMigrationByName ''002_add_col'']) \<and>
   migrate failing_example None True (fresh_db, []) =
     (Inl (External ''engine failure''), \<lparr>db_connected = True, history = None\<rparr>,
      [EvConnect, EvIsPrismaMigrationsTableExists, EvMigrateTo ''002_add_col'']) \<and>
   migrate sampling_failing_example None True (fresh_db, []) =
     (Inl (External ''connection lost''),
      \<lparr>db_connected = True, history = Some [(''002_add_col'', 1)]\<rparr>,
      [EvConnect, EvIsPrismaMigrationsTableExists, EvMigrateTo ''002_add_col'',
       EvGetMigrationByName ''002_add_col'']) \<and>
   migrate script_failing_example None True (fresh_db, []) =
     (Inl (External ''post script exited with code 1''),
      \<lparr>db_connected = True, history = Some [(''002_add_col'', 1)]\<rparr>,
      [EvConnect, EvIsPrismaMigrationsTableExists, EvMigrateTo ''002_add_col'',
       EvGetMigrationByName ''002_add_col'',
       EvLogInfo ''Executing post-migrate script for migration: 002_add_col'',
       EvRunPostScript ''/app/prisma/migrations/002_add_col'']) \<and>
   migrate catch_up_failing_example None True (fresh_db, []) =
     (Inl (External ''engine failure''),
      \<lparr>db_connected = True, history = Some [(''002_add_col'', 1)]\<rparr>,
      [EvConnect, EvIsPrismaMigrationsTableExists, EvMigrateTo ''002_add_col'',
       EvGetMigrationByName ''002_add_col'',
       EvLogInfo ''Executing post-migrate script for migration: 002_add_col'',
       EvRunPostScript ''/app/prisma/migrations/002_add_col'', EvMigrateTo ''003_seed''])"
proof -
  let ?n = "''002_add_col''"
  let ?entries = "[''001_init'', ''002_add_col'', ''003_seed'']"
  let ?wc = "\<lparr>db_connected = True, history = None\<rparr>"
  let ?w3 = "\<lparr>db_connected = True, history = Some [(?n, 3)]\<rparr>"
  let ?w1 = "\<lparr>db_connected = True, history = Some [(?n, 1)]\<rparr>"
  let ?row1 = "\<lparr>migration_name = ?n, applied_steps_count = 1\<rparr>"
  let ?lost = "External ''connection lost''"
  let ?trl = "[EvConnect, EvIsPrismaMigrationsTableExists, EvMigrateTo ?n,
               EvGetMigrationByName ?n,
               EvLogInfo ''Executing post-migrate script for migration: 002_add_col'',
               EvRunPostScript ''/app/prisma/migrations/002_add_col'']"
  have ok: "migrate spec_example (Some ?n) True (fresh_db, []) =
             (Inr (), db_with [(?n, 1)], ?trl @ [EvDisconnect])"
    by code_simp
  have a0: "last (?trl @ [EvDisconnect]) = EvDisconnect"
    using disconnect_only_at_the_end [of spec_example "Some ?n" True fresh_db "Inr ()"
            "db_with [(?n, 1)]" "?trl @ [EvDisconnect]"] ok
    by blast
  have r1: "reaches table_check_failing_example None True fresh_db ?entries ?wc [] ?n [] ?wc
              [EvConnect]"
    and t1: "db_isPrismaMigrationsTableExists table_check_failing_example ?wc = (Inl ?lost, ?wc)"
    by code_simp+
  have a1: "migrate table_check_failing_example None True (fresh_db, []) =
              (Inl ?lost, ?wc, [EvConnect] @ [EvIsPrismaMigrationsTableExists])"
    using disconnect_only_at_the_end [of table_check_failing_example None True fresh_db _ _ _
            ?entries ?wc "[]" ?n "[]" ?wc "[EvConnect]" ?lost ?wc] r1 t1
    by blast
  have r2: "reaches sampling_failing_example None True (db_with [(?n, 3)]) ?entries ?w3 [] ?n []
              ?w3 [EvConnect]"
    and t2: "db_isPrismaMigrationsTableExists sampling_failing_example ?w3 = (Inr True, ?w3)"
    and g2: "db_getMigrationByName sampling_failing_example ?n ?w3 = (Inl ?lost, ?w3)"
    by code_simp+
  have a2: "migrate sampling_failing_example None True (db_with [(?n, 3)], []) =
              (Inl ?lost, ?w3, [EvConnect] @ [EvIsPrismaMigrationsTableExists,
                                               EvGetMigrationByName ?n])"
    using disconnect_only_at_the_end [of sampling_failing_example None True "db_with [(?n, 3)]"
            _ _ _ ?entries ?w3 "[]" ?n "[]" ?w3 "[EvConnect]" ?lost ?w3 ?w3] r2 t2 g2
    by blast
  have r3: "reaches failing_example None True fresh_db ?entries ?wc [] ?n [] ?wc [EvConnect]"
    and t3: "db_isPrismaMigrationsTableExists failing_example ?wc = (Inr False, ?wc)"
    and s3: "if False then db_getMigrationByName failing_example ?n ?wc = (Inr None, ?wc)
             else ?wc = ?wc"
    and e3: "migrateTo failing_example ?n ?wc = (Inl (External ''engine failure''), ?wc)"
    by code_simp+
  have a3: "migrate failing_example None True (fresh_db, []) =
              (Inl (External ''engine failure''), ?wc,
               [EvConnect] @ [EvIsPrismaMigrationsTableExists] @
               (if False then [EvGetMigrationByName ?n] else []) @ [EvMigrateTo ?n])"
    using disconnect_only_at_the_end [of failing_example None True fresh_db _ _ _
            ?entries ?wc "[]" ?n "[]" ?wc "[EvConnect]" "External ''engine failure''" ?wc ?wc
            False None ?wc] r3 t3 s3 e3
    by blast
  have r4: "reaches sampling_failing_example None True fresh_db ?entries ?wc [] ?n [] ?wc
              [EvConnect]"
    and t4: "db_isPrismaMigrationsTableExists sampling_failing_example ?wc = (Inr False, ?wc)"
    and s4: "if False then db_getMigrationByName sampling_failing_example ?n ?wc = (Inr None, ?wc)
             else ?wc = ?wc"
    and e4: "migrateTo sampling_failing_example ?n ?wc = (Inr (), ?w1)"
    and g4: "db_getMigrationByName sampling_failing_example ?n ?w1 = (Inl ?lost, ?w1)"
    by code_simp+
  have a4: "migrate sampling_failing_example None True (fresh_db, []) =
              (Inl ?lost, ?w1,
               [EvConnect] @ [EvIsPrismaMigrationsTableExists] @
               (if False then [EvGetMigrationByName ?n] else []) @
               [EvMigrateTo ?n, EvGetMigrationByName ?n])"
    using disconnect_only_at_the_end [of sampling_failing_example None True fresh_db _ _ _
            ?entries ?wc "[]" ?n "[]" ?wc "[EvConnect]" ?lost ?wc ?wc False None ?w1 ?w1]
          r4 t4 s4 e4 g4
    by blast
  have r5: "reaches script_failing_example None True fresh_db ?entries ?wc [] ?n [] ?wc
              [EvConnect]"
    and t5: "db_isPrismaMigrationsTableExists script_failing_example ?wc = (Inr False, ?wc)"
    and s5: "if False then db_getMigrationByName script_failing_example ?n ?wc = (Inr None, ?wc)
             else ?wc = ?wc"
    and e5: "migrateTo script_failing_example ?n ?wc = (Inr (), ?w1)"
    and g5: "db_getMigrationByName script_failing_example ?n ?w1 = (Inr (Some ?row1), ?w1)"
    and d5: "(if False then appliedCount None else 0) + 1 = appliedCount (Some ?row1)"
    and p5: "runPostScript script_failing_example (getMigrationPath script_failing_example ?n) ?w1 =
               (Inl (External ''post script exited with code 1''), ?w1)"
    by code_simp+
  have a5: "migrate script_failing_example None True (fresh_db, []) =
              (Inl (External ''post script exited with code 1''), ?w1,
               [EvConnect] @ [EvIsPrismaMigrationsTableExists] @
               (if False then [EvGetMigrationByName ?n] else []) @
               [EvMigrateTo ?n, EvGetMigrationByName ?n,
                EvLogInfo (''Executing post-migrate script for migration: '' @ ?n),
                EvRunPostScript (getMigrationPath script_failing_example ?n)])"
    using disconnect_only_at_the_end [of script_failing_example None True fresh_db _ _ _
            ?entries ?wc "[]" ?n "[]" ?wc "[EvConnect]"
            "External ''post script exited with code 1''" ?wc ?wc False None ?w1 ?w1
            "Some ?row1" ?w1]
          r5 t5 s5 e5 g5 d5 p5
    by blast
  have p5': "getMigrationPath script_failing_example ?n = ''/app/prisma/migrations/002_add_col''"
    by code_simp
  have h6: "established catch_up_failing_example None fresh_db ?entries ?wc \<and>
            ?entries = selectMigrations (filter (isMigration catch_up_failing_example) ?entries)
                         None True \<and>
            migrate_loop catch_up_failing_example
              (filter (isMigrationWithPostScript catch_up_failing_example) ?entries)
              (?wc, [EvConnect]) = (Inr (), ?w1, ?trl) \<and>
            at_last (filter (isMigrationWithPostScript catch_up_failing_example) ?entries) \<noteq>
              at_last ?entries \<and>
            migrateTo catch_up_failing_example (last ?entries) ?w1 =
              (Inl (External ''engine failure''), ?w1)"
    by code_simp
  have a6: "migrate catch_up_failing_example None True (fresh_db, []) =
              (Inl (External ''engine failure''), ?w1, ?trl @ [EvMigrateTo (last ?entries)])"
    using disconnect_only_at_the_end [of catch_up_failing_example None True fresh_db _ _ _
            ?entries ?wc _ _ _ _ _ "External ''engine failure''" _ ?w1 _ _ _ _ _ _
            ?entries ?w1 ?trl] h6
    by blast
  show ?thesis
    using a0 a1 a2 a3 a4 a5 p5' a6 by simp
qed

text \<open>
  The engine fails at the first post-script-bearing migration: the run has connected, fails
  with the error of the engine, leaves the database connected and never calls the
  disconnect.
\<close>

theorem engine_failure_counterexample:
  "migrate failing_example None True (fresh_db, []) =
     (Inl (External ''engine failure''), \<lparr>db_connected = True, history = None\<rparr>,
      [EvConnect, EvIsPrismaMigrationsTableExists, EvMigrateTo ''002_add_col''])"
  by code_simp

section \<open>The target name\<close>



section \<open>The temp schema file\<close>

text \<open>
  Claim C6. In a codegen task, once the temp schema has been written, the generator is called
  and then, whether the generator returned or threw, the temp schema file is removed. The
  task then fails with the error of the removal if the removal threw, else with the error of
  the generator if the generator threw, and else logs and ends normally. When writing the
  temp schema fails, the task fails with that error and the generator is not called.
\<close>

theorem temp_schema_always_removed:
  assumes "tmp = tempSchemaPathOf G dir rnd name"
    and "createTempSchema G (schemaPathOf G config dir name) (outputPathOf G config dir name)
           tmp s = (rc, w1, tr1)"
    and "PrismaCLI_generate G tmp w1 = (rg, w2)"
    and "fs_rmSync G tmp w2 = (rr, w3)"
  shows "(rc = Inr () \<longrightarrow>
           generate_task G config dir rnd name s =
             ((case rr of Inl e \<Rightarrow> Inl e | Inr u \<Rightarrow> rg), w3,
              tr1 @ [EvPrismaGenerate tmp, EvRmSync tmp] @
                (if rg = Inr () \<and> rr = Inr ()
                 then [EvLogInfo (''Types generated for migration: '' @ name)] else []))) \<and>
         (rc \<noteq> Inr () \<longrightarrow> generate_task G config dir rnd name s = (rc, w1, tr1))"
proof (cases rc)
  case (Inl e)
  then show ?thesis using assms(1,2)
    by (simp add: generate_task_def Let_def andThen_def)
next
  case (Inr u)
  show ?thesis
  proof (cases rr)
    case (Inl e)
    then show ?thesis using Inr assms
      by (simp add: generate_task_def Let_def andThen_def tryFinally_def call_def)
  next
    case rrok: (Inr u2)
    show ?thesis
    proof (cases rg)
      case (Inl e)
      then show ?thesis using Inr rrok assms
        by (simp add: generate_task_def Let_def andThen_def tryFinally_def call_def)
    next
      case (Inr u3)
      then show ?thesis using \<open>rc = Inr u\<close> rrok assms
        by (simp add: generate_task_def Let_def andThen_def tryFinally_def call_def logInfo_def)
    qed
  qed
qed

text \<open>
  The generator throws: the temp schema file is removed all the same, and the file system
  ends as it began.
\<close>

theorem temp_schema_always_removed_witness:
  "generate_task (demo_gen crashing_generator) demo_config ''/app/prisma/migrations'' ''k3''
     ''002_add_col'' (demo_files, []) =
   (Inl (External ''generator crashed''), demo_files,
    [EvReadFile ''/app/prisma/migrations/002_add_col/schema.prisma'',
     EvMkdir ''/app/prisma/migrations'',
     EvWriteFile ''/app/prisma/migrations/.tmp-migration-schema-k3_002_add_col.prisma''
       ''generator client {}'',
     EvPrismaGenerate ''/app/prisma/migrations/.tmp-migration-schema-k3_002_add_col.prisma'',
     EvRmSync ''/app/prisma/migrations/.tmp-migration-schema-k3_002_add_col.prisma''])"
proof -
  let ?G = "demo_gen crashing_generator" and ?dir = "''/app/prisma/migrations''"
  let ?tmp = "''/app/prisma/migrations/.tmp-migration-schema-k3_002_add_col.prisma''"
  let ?w1 = "(?tmp, ''generator client {}'') # demo_files"
  let ?tr1 = "[EvReadFile ''/app/prisma/migrations/002_add_col/schema.prisma'',
     EvMkdir ''/app/prisma/migrations'', EvWriteFile ?tmp ''generator client {}'']"
  have h1: "?tmp = tempSchemaPathOf ?G ?dir ''k3'' ''002_add_col''"
    by code_simp
  have h2: "createTempSchema ?G (schemaPathOf ?G demo_config ?dir ''002_add_col'')
              (outputPathOf ?G demo_config ?dir ''002_add_col'') ?tmp (demo_files, []) =
            (Inr (), ?w1, ?tr1)"
    by code_simp
  have h3: "PrismaCLI_generate ?G ?tmp ?w1 = (Inl (External ''generator crashed''), ?w1)"
    by code_simp
  have h4: "fs_rmSync ?G ?tmp ?w1 = (Inr (), demo_files)"
    by code_simp
  show ?thesis
    using temp_schema_always_removed [OF h1 h2 h3 h4] by simp
qed

end
